theory Spec2Isabelle
  imports Main "HOL-Library.Multiset"
begin

section \<open>Python values used by pytube/api.py\<close>

text \<open>
  A Python string is modelled as a \<open>string\<close> (one \<open>char\<close> per character of the text).
  Exceptions are values of type \<open>error\<close>; a function that can raise returns
  \<open>error + 'a\<close> with \<open>Inl\<close> for the raised exception.

  Modelled from the spec: the module \<open>pytube.exceptions\<close> is not part of the sources at
  hand. Its classes \<open>PytubeError\<close>, \<open>CipherError\<close>, \<open>AgeRestricted\<close>, \<open>DoesNotExist\<close> and
  \<open>MultipleObjectsReturned\<close> are the distinct conditions of the error taxonomy; none of
  them is a \<open>TypeError\<close> or a \<open>KeyError\<close>.
\<close>

datatype error =
    PytubeError string
  | CipherError error
  | AgeRestricted string
  | DoesNotExist string
  | MultipleObjectsReturned string
  | TypeError
  | KeyError
  | IndexError
  | ValueError
  | AttributeError
  | UnboundLocalError
  | ExternalError string

text \<open>\<open>sub in s\<close> on strings.\<close>

fun contains :: "string \<Rightarrow> string \<Rightarrow> bool" where
  "contains sub [] = (sub = [])"
| "contains sub (c # cs) = (take (length sub) (c # cs) = sub \<or> contains sub cs)"

text \<open>\<open>s.find(sub)\<close>: the index of the first occurrence, or \<open>-1\<close>.\<close>

fun find_from :: "string \<Rightarrow> string \<Rightarrow> nat \<Rightarrow> int" where
  "find_from sub [] i = (if sub = [] then int i else - 1)"
| "find_from sub (c # cs) i =
     (if take (length sub) (c # cs) = sub then int i else find_from sub cs (Suc i))"

definition find_str :: "string \<Rightarrow> string \<Rightarrow> int" where
  "find_str s sub = find_from sub s 0"

text \<open>\<open>s.split(sep)\<close> for a one-character separator: \<open>n\<close> separators give \<open>n + 1\<close> pieces.\<close>

fun split_str :: "char \<Rightarrow> string \<Rightarrow> string list" where
  "split_str sep [] = [[]]"
| "split_str sep (c # cs) =
     (let r = split_str sep cs in if c = sep then [] # r else (c # hd r) # tl r)"

section \<open>The quality profile table\<close>

definition YT_QUALITY_PROFILES :: "(int \<times> string list) list" where
  "YT_QUALITY_PROFILES =
    [(5, [''flv'', ''240p'', ''Sorenson H.263'', ''N/A'', ''0.25'', ''MP3'', ''64'']),
     (17, [''3gp'', ''144p'', ''MPEG-4 Visual'', ''Simple'', ''0.05'', ''AAC'', ''24'']),
     (36, [''3gp'', ''240p'', ''MPEG-4 Visual'', ''Simple'', ''0.17'', ''AAC'', ''38'']),
     (43, [''webm'', ''360p'', ''VP8'', ''N/A'', ''0.5'', ''Vorbis'', ''128'']),
     (100, [''webm'', ''360p'', ''VP8'', ''3D'', ''N/A'', ''Vorbis'', ''128'']),
     (18, [''mp4'', ''360p'', ''H.264'', ''Baseline'', ''0.5'', ''AAC'', ''96'']),
     (22, [''mp4'', ''720p'', ''H.264'', ''High'', ''2-2.9'', ''AAC'', ''192'']),
     (82, [''mp4'', ''360p'', ''H.264'', ''3D'', ''0.5'', ''AAC'', ''96'']),
     (83, [''mp4'', ''240p'', ''H.264'', ''3D'', ''0.5'', ''AAC'', ''96'']),
     (84, [''mp4'', ''720p'', ''H.264'', ''3D'', ''2-2.9'', ''AAC'', ''152'']),
     (85, [''mp4'', ''1080p'', ''H.264'', ''3D'', ''2-2.9'', ''AAC'', ''152''])]"

definition YT_QUALITY_PROFILE_KEYS :: "string list" where
  "YT_QUALITY_PROFILE_KEYS =
    [''extension'', ''resolution'', ''video_codec'', ''profile'', ''video_bitrate'',
     ''audio_codec'', ''audio_bitrate'']"

text \<open>\<open>YT_QUALITY_PROFILES.get(itag)\<close>: \<open>None\<close> for an itag that is not a key.\<close>

definition profiles_get :: "int \<Rightarrow> string list option" where
  "profiles_get itag = map_of YT_QUALITY_PROFILES itag"

section \<open>\<open>_get_json_offset\<close>: the bracket scanner\<close>

text \<open>
  The \<open>for idx, ch in enumerate(html)\<close> loop. \<open>brackets\<close> is the stack, \<open>idx\<close> the index of
  the character \<open>ch\<close>. \<open>Inr idx\<close> is the \<open>break\<close> at index \<open>idx\<close>; running off the end of the
  text is the loop's \<open>else\<close> branch; \<open>brackets.pop()\<close> on an empty list raises \<open>IndexError\<close>.
\<close>

fun scan_brackets :: "string \<Rightarrow> char list \<Rightarrow> nat \<Rightarrow> error + nat" where
  "scan_brackets [] brackets idx = Inl (PytubeError ''Unable to determine json offset.'')"
| "scan_brackets (ch # rest) brackets idx =
     (if ch = CHR ''{'' then scan_brackets rest (brackets @ [CHR ''}'']) (Suc idx)
      else if ch = CHR ''}'' then
        (if brackets = [] then Inl IndexError
         else if length (butlast brackets) = 0 then Inr idx
         else scan_brackets rest (butlast brackets) (Suc idx))
      else scan_brackets rest brackets (Suc idx))"

definition get_json_offset :: "string \<Rightarrow> error + nat" where
  "get_json_offset html =
     (let index = 1 in
      case scan_brackets html [] 0 of
        Inl e \<Rightarrow> Inl e
      | Inr idx \<Rightarrow> Inr (index + idx))"

section \<open>\<open>_parse_stream_map\<close>: the stream map decoder\<close>

text \<open>
  The dictionary \<open>dct\<close> is an association list with the six keys of the source, in the
  source's order. \<open>dct.get(key, []).append(v)\<close> appends to the list stored under \<open>key\<close>
  when \<open>key\<close> is one of them, and to a fresh list that nobody holds otherwise.
\<close>

type_synonym dct = "(string \<times> string list) list"

definition dct_init :: dct where
  "dct_init =
    [(''itag'', []), (''url'', []), (''quality'', []), (''fallback_host'', []),
     (''s'', []), (''type'', [])]"

definition get_append :: "dct \<Rightarrow> string \<Rightarrow> string \<Rightarrow> dct" where
  "get_append d key v = map (\<lambda>(k, vs). if k = key then (k, vs @ [v]) else (k, vs)) d"

text \<open>
  The inner loop \<open>for kv in video\<close>: \<open>key, value = kv.split("=")\<close> raises \<open>ValueError\<close>
  unless the split gives exactly two pieces. \<open>unquote\<close> is the library function
  \<open>urllib.unquote\<close>, a parameter here.
\<close>

fun parse_video :: "(string \<Rightarrow> string) \<Rightarrow> string list \<Rightarrow> dct \<Rightarrow> error + dct" where
  "parse_video unquote [] d = Inr d"
| "parse_video unquote (kv # kvs) d =
     (case split_str (CHR ''='') kv of
        [key, val] \<Rightarrow> parse_video unquote kvs (get_append d key (unquote val))
      | _ \<Rightarrow> Inl ValueError)"

fun parse_videos :: "(string \<Rightarrow> string) \<Rightarrow> string list list \<Rightarrow> dct \<Rightarrow> error + dct" where
  "parse_videos unquote [] d = Inr d"
| "parse_videos unquote (video # videos) d =
     (case parse_video unquote video d of
        Inl e \<Rightarrow> Inl e
      | Inr d' \<Rightarrow> parse_videos unquote videos d')"

definition parse_stream_map :: "(string \<Rightarrow> string) \<Rightarrow> string \<Rightarrow> error + dct" where
  "parse_stream_map unquote blob =
     (let videos = split_str (CHR '','') blob;
          videos = map (split_str (CHR ''&'')) videos
      in parse_videos unquote videos dct_init)"

section \<open>\<open>_get_quality_profile_from_url\<close>\<close>

text \<open>
  \<open>re.compile('itag=(\d+)').findall(video_url)\<close>: the digit groups of the matches, found
  left to right without overlap; \<open>\d+\<close> is greedy, so a match takes the whole run of digits.
  The digits are the ten ASCII digits.
\<close>

definition is_digit :: "char \<Rightarrow> bool" where
  "is_digit c = (c \<in> set ''0123456789'')"

function findall_itag :: "string \<Rightarrow> string list" where
  "findall_itag s =
     (if s = [] then []
      else if take 5 s = ''itag='' \<and> takeWhile is_digit (drop 5 s) \<noteq> []
      then takeWhile is_digit (drop 5 s) # findall_itag (dropWhile is_digit (drop 5 s))
      else findall_itag (tl s))"
  by pat_completeness auto
termination
proof (relation "measure length")
  show "wf (measure length)" by simp
next
  fix s :: string
  assume "s \<noteq> []" and "take 5 s = ''itag='' \<and> takeWhile is_digit (drop 5 s) \<noteq> []"
  then have "length (drop 5 s) < length s" by (cases s) auto
  moreover have "length (dropWhile is_digit (drop 5 s)) \<le> length (drop 5 s)"
    by (rule length_dropWhile_le)
  ultimately show "(dropWhile is_digit (drop 5 s), s) \<in> measure length" by simp
next
  fix s :: string
  assume "s \<noteq> []"
  then show "(tl s, s) \<in> measure length" by (cases s) auto
qed

declare findall_itag.simps [simp del]

text \<open>\<open>int(itag[0])\<close> on a string of decimal digits.\<close>

definition digit_val :: "char \<Rightarrow> int" where
  "digit_val c = int (length (takeWhile (\<lambda>d. d \<noteq> c) ''0123456789''))"

definition int_of_digits :: "string \<Rightarrow> int" where
  "int_of_digits ds = foldl (\<lambda>n c. 10 * n + digit_val c) 0 ds"

text \<open>
  What the function returns: the tuple \<open>(itag, None)\<close>, the tuple \<open>(itag, dict)\<close>, or the
  \<open>False\<close> of its last line.
\<close>

datatype quality_result =
    QTuple int "(string \<times> string) list option"
  | QFalse

definition get_quality_profile_from_url :: "string \<Rightarrow> error + quality_result" where
  "get_quality_profile_from_url video_url =
     (let itag = findall_itag video_url in
      if itag \<noteq> [] \<and> length itag = 1 then
        (let n = int_of_digits (hd itag) in
         case profiles_get n of
           None \<Rightarrow> Inr (QTuple n None)
         | Some quality_profile \<Rightarrow>
             if quality_profile = [] then Inr (QTuple n None)
             else Inr (QTuple n (Some (zip YT_QUALITY_PROFILE_KEYS quality_profile))))
      else if itag = [] then
        Inl (PytubeError ''Unable to get encoding profile, no itag found.'')
      else if length itag > 1 then
        Inl (PytubeError ''Unable to get encoding profile, multiple itags found.'')
      else Inr QFalse)"

section \<open>The session object and its collaborators\<close>

text \<open>
  The value of \<open>json.loads\<close>. \<open>JStreamMap\<close> is the decoded stream map that
  \<open>get_video_data\<close> stores under \<open>args.stream_map\<close>. A JSON object is an association
  list; \<open>JNull\<close> is Python's \<open>None\<close>.
\<close>

datatype json =
    JNull
  | JBool bool
  | JNum string
  | JStr string
  | JArr "json list"
  | JObj "(string \<times> json) list"
  | JStreamMap dct

text \<open>\<open>d.get(key, default)\<close>; a value that is not a dictionary has no \<open>get\<close>.\<close>

fun json_get :: "json \<Rightarrow> string \<Rightarrow> json \<Rightarrow> error + json" where
  "json_get (JObj kvs) key dflt = Inr (case map_of kvs key of None \<Rightarrow> dflt | Some v \<Rightarrow> v)"
| "json_get (JStreamMap d) key dflt =
     Inr (case map_of d key of None \<Rightarrow> dflt | Some vs \<Rightarrow> JArr (map JStr vs))"
| "json_get _ key dflt = Inl AttributeError"

text \<open>\<open>obj.get(k1, {}).get(k2)\<close>\<close>

definition json_get2 :: "json \<Rightarrow> string \<Rightarrow> string \<Rightarrow> error + json" where
  "json_get2 obj k1 k2 =
     (case json_get obj k1 (JObj []) of
        Inl e \<Rightarrow> Inl e
      | Inr inner \<Rightarrow> json_get inner k2 JNull)"

text \<open>\<open>d[key] = v\<close> on a dictionary.\<close>

fun dict_set :: "string \<Rightarrow> json \<Rightarrow> (string \<times> json) list \<Rightarrow> (string \<times> json) list" where
  "dict_set key v [] = [(key, v)]"
| "dict_set key v ((k, w) # kvs) =
     (if k = key then (key, v) # kvs else (k, w) # dict_set key v kvs)"

text \<open>
  Modelled from the spec: the class \<open>Video\<close> of \<open>pytube.models\<close> is not part of the sources
  at hand; it is a plain data container holding the url, the filename and the keyword
  arguments it is built with (the seven fields of a quality profile); a keyword that is
  not given is \<open>None\<close>.
\<close>

record Video =
  v_url :: string
  v_filename :: string
  extension :: "string option"
  resolution :: "string option"
  video_codec :: "string option"
  profile :: "string option"
  video_bitrate :: "string option"
  audio_codec :: "string option"
  audio_bitrate :: "string option"

definition new_Video :: "string \<Rightarrow> string \<Rightarrow> (string \<times> string) list \<Rightarrow> Video" where
  "new_Video url filename kwargs =
     \<lparr>v_url = url, v_filename = filename,
      extension = map_of kwargs ''extension'',
      resolution = map_of kwargs ''resolution'',
      video_codec = map_of kwargs ''video_codec'',
      profile = map_of kwargs ''profile'',
      video_bitrate = map_of kwargs ''video_bitrate'',
      audio_codec = map_of kwargs ''audio_codec'',
      audio_bitrate = map_of kwargs ''audio_bitrate''\<rparr>"

text \<open>
  The attributes of a \<open>YouTube\<close> object: \<open>_filename\<close> (\<open>None\<close> or a string), \<open>_video_url\<close>,
  \<open>_js_code\<close> (\<open>False\<close>, here \<open>None\<close>, or the script text), \<open>_videos\<close> and \<open>title\<close>.
  \<open>yt_fetches\<close> is not an attribute: it records, in order, every call of \<open>urlopen\<close> the
  object has made.
\<close>

datatype fetch = PageFetch string | ScriptFetch string

record YouTube =
  yt_filename :: "string option"
  yt_video_url :: "string option"
  yt_js_code :: "string option"
  yt_videos :: "Video list"
  yt_title :: json
  yt_fetches :: "fetch list"

text \<open>Truth value of an attribute that is \<open>None\<close>/\<open>False\<close> or a string.\<close>

definition truthy :: "string option \<Rightarrow> bool" where
  "truthy x = (case x of None \<Rightarrow> False | Some s \<Rightarrow> s \<noteq> [])"

text \<open>
  The functions that \<open>api.py\<close> imports. \<open>urlopen\<close> gives the decoded body of the response
  (\<open>None\<close>: a response that is false), or raises. \<open>JSInterpreter\<close> is the constructor called
  on the script text (it may raise); \<open>extract_call code func signature\<close> is
  \<open>JSInterpreter(code).extract_function(func)([signature])\<close>. \<open>video_lt\<close> is the order of
  \<open>Video\<close> objects that \<open>list.sort\<close> uses.
\<close>

record env =
  urlopen :: "string \<Rightarrow> error + string option"
  json_loads :: "string \<Rightarrow> error + json"
  unquote :: "string \<Rightarrow> string"
  JSInterpreter :: "string \<Rightarrow> error option"
  extract_call :: "string \<Rightarrow> string \<Rightarrow> string \<Rightarrow> error + string"
  safe_filename :: "json \<Rightarrow> error + string"
  video_lt :: "Video \<Rightarrow> Video \<Rightarrow> bool"

definition init :: YouTube where
  "init = \<lparr>yt_filename = None, yt_video_url = None, yt_js_code = None, yt_videos = [],
           yt_title = JNull, yt_fetches = []\<rparr>"

text \<open>\<open>"{}".format(x)\<close> for an attribute that is \<open>None\<close> or a string.\<close>

definition format_opt :: "string option \<Rightarrow> string" where
  "format_opt x = (case x of None \<Rightarrow> ''None'' | Some s \<Rightarrow> s)"

section \<open>\<open>_get_json_data\<close> and \<open>get_video_data\<close>\<close>

definition get_json_data :: "env \<Rightarrow> string \<Rightarrow> error + json" where
  "get_json_data env html =
     (let start = find_str html ''ytplayer.config = '' + 18;
          html = drop (nat start) html
      in case get_json_offset html of
           Inl e \<Rightarrow> Inl e
         | Inr offset \<Rightarrow>
             if offset = 0 then Inl (PytubeError ''Unable to extract json.'')
             else json_loads env (take offset html))"

text \<open>
  The last lines of \<open>get_video_data\<close>: read \<open>args.url_encoded_fmt_stream_map\<close>, decode it
  (\<open>blob.split\<close> exists for a string only) and store the result under \<open>args.stream_map\<close>.
\<close>

definition bundle_stream_map :: "env \<Rightarrow> json \<Rightarrow> error + json" where
  "bundle_stream_map env json_object =
     (case json_get2 json_object ''args'' ''url_encoded_fmt_stream_map'' of
        Inl e \<Rightarrow> Inl e
      | Inr (JStr encoded_stream_map) \<Rightarrow>
          (case parse_stream_map (unquote env) encoded_stream_map of
             Inl e \<Rightarrow> Inl e
           | Inr d \<Rightarrow>
               (case json_object of
                  JObj kvs \<Rightarrow>
                    (case map_of kvs ''args'' of
                       None \<Rightarrow> Inl KeyError
                     | Some (JObj args) \<Rightarrow>
                         Inr (JObj (dict_set ''args''
                                (JObj (dict_set ''stream_map'' (JStreamMap d) args)) kvs))
                     | Some _ \<Rightarrow> Inl TypeError)
                | _ \<Rightarrow> Inl TypeError))
      | Inr _ \<Rightarrow> Inl AttributeError)"

definition get_video_data :: "env \<Rightarrow> YouTube \<Rightarrow> (error + json) \<times> YouTube" where
  "get_video_data env st =
     (let st1 = st\<lparr>yt_title := JNull\<rparr> in
      case yt_video_url st1 of
        None \<Rightarrow> (Inl AttributeError, st1)
      | Some url \<Rightarrow>
          (let st2 = st1\<lparr>yt_fetches := yt_fetches st1 @ [PageFetch url]\<rparr> in
           case urlopen env url of
             Inl e \<Rightarrow> (Inl e, st2)
           | Inr None \<Rightarrow> (Inl (PytubeError (''Unable to open url: '' @ url)), st2)
           | Inr (Some html) \<Rightarrow>
               if contains ''og:restrictions:age'' html then
                 (Inl (AgeRestricted
                    ''Age restricted video. Unable to download without being signed in.''), st2)
               else
                 (case get_json_data env html of
                    Inl e \<Rightarrow> (Inl e, st2)
                  | Inr json_object \<Rightarrow> (bundle_stream_map env json_object, st2))))"

section \<open>\<open>_get_cipher\<close>\<close>

text \<open>
  \<open>re.compile(r'\.sig\|\|([a-zA-Z0-9$]+)\(').search(code)\<close>: the group of the leftmost
  match. The group is a greedy run of name characters and \<open>(\<close> is not one of them, so a
  match at a position takes the whole run and needs \<open>(\<close> right after it.
\<close>

definition is_name_char :: "char \<Rightarrow> bool" where
  "is_name_char c =
     (c \<in> set ''abcdefghijklmnopqrstuvwxyzABCDEFGHIJKLMNOPQRSTUVWXYZ0123456789$'')"

definition match_sig :: "string \<Rightarrow> string option" where
  "match_sig s =
     (let r = drop 6 s; g = takeWhile is_name_char r in
      if take 6 s = ''.sig||'' \<and> g \<noteq> [] \<and> take 1 (dropWhile is_name_char r) = ''(''
      then Some g else None)"

fun search_sig :: "string \<Rightarrow> string option" where
  "search_sig [] = None"
| "search_sig (c # cs) =
     (case match_sig (c # cs) of Some g \<Rightarrow> Some g | None \<Rightarrow> search_sig cs)"

text \<open>
  The \<open>try\<close> block of \<open>_get_cipher\<close>; every exception in it becomes a \<open>CipherError\<close>.
  When the pattern does not match, \<open>func\<close> is never assigned and reading it raises
  \<open>UnboundLocalError\<close>, after the interpreter has been built.
\<close>

definition cipher_try :: "env \<Rightarrow> string option \<Rightarrow> string \<Rightarrow> error + string" where
  "cipher_try env js_code signature =
     (case js_code of
        None \<Rightarrow> Inl (CipherError TypeError)
      | Some code \<Rightarrow>
          (case JSInterpreter env code of
             Some e \<Rightarrow> Inl (CipherError e)
           | None \<Rightarrow>
               (case search_sig code of
                  None \<Rightarrow> Inl (CipherError UnboundLocalError)
                | Some func \<Rightarrow>
                    (case extract_call env code func signature of
                       Inl e \<Rightarrow> Inl (CipherError e)
                     | Inr r \<Rightarrow> Inr r))))"

definition get_cipher :: "env \<Rightarrow> YouTube \<Rightarrow> string \<Rightarrow> string \<Rightarrow> (error + string) \<times> YouTube" where
  "get_cipher env st signature url =
     (if \<not> truthy (yt_js_code st) then
        (let st1 = st\<lparr>yt_fetches := yt_fetches st @ [ScriptFetch url]\<rparr> in
         case urlopen env url of
           Inl e \<Rightarrow> (Inl e, st1)
         | Inr None \<Rightarrow>
             (Inl (PytubeError (''Unable to open url: '' @ format_opt (yt_video_url st))), st1)
         | Inr (Some text) \<Rightarrow>
             (cipher_try env (Some text) signature, st1\<lparr>yt_js_code := Some text\<rparr>))
      else (cipher_try env (yt_js_code st) signature, st))"

section \<open>\<open>filename\<close>, \<open>_add_video\<close> and \<open>from_url\<close>\<close>

text \<open>The property \<open>filename\<close>: it fills \<open>_filename\<close> from the title when it is not set.\<close>

definition filename :: "env \<Rightarrow> YouTube \<Rightarrow> (error + string) \<times> YouTube" where
  "filename env st =
     (if \<not> truthy (yt_filename st) then
        (case safe_filename env (yt_title st) of
           Inl e \<Rightarrow> (Inl e, st)
         | Inr f \<Rightarrow> (Inr f, st\<lparr>yt_filename := Some f\<rparr>))
      else (Inr (format_opt (yt_filename st)), st))"

text \<open>
  \<open>list.sort()\<close> with the order of the elements as a parameter: a stable sort that only
  asks whether one element is less than another.
\<close>

fun sort_insert :: "('a \<Rightarrow> 'a \<Rightarrow> bool) \<Rightarrow> 'a \<Rightarrow> 'a list \<Rightarrow> 'a list" where
  "sort_insert lt x [] = [x]"
| "sort_insert lt x (y # ys) = (if lt y x then y # sort_insert lt x ys else x # y # ys)"

definition list_sort :: "('a \<Rightarrow> 'a \<Rightarrow> bool) \<Rightarrow> 'a list \<Rightarrow> 'a list" where
  "list_sort lt xs = foldr (sort_insert lt) xs []"

definition add_video :: "env \<Rightarrow> string \<Rightarrow> string \<Rightarrow> (string \<times> string) list \<Rightarrow> YouTube \<Rightarrow> YouTube" where
  "add_video env url fname kwargs st =
     st\<lparr>yt_videos := list_sort (video_lt env) (yt_videos st @ [new_Video url fname kwargs])\<rparr>"

text \<open>
  The \<open>try\<close> block of the loop of \<open>from_url\<close>. \<open>Continue\<close>: the record is skipped (no
  profile, or a \<open>TypeError\<close>/\<open>KeyError\<close>, which includes unpacking the \<open>False\<close> result);
  \<open>Raised\<close>: an exception that the \<open>except\<close> clause does not catch.
\<close>

datatype classified = Continue | Raised error | Profile "(string \<times> string) list"

definition try_quality_profile :: "string \<Rightarrow> classified" where
  "try_quality_profile url =
     (case get_quality_profile_from_url url of
        Inl e \<Rightarrow> if e = TypeError \<or> e = KeyError then Continue else Raised e
      | Inr QFalse \<Rightarrow> Continue
      | Inr (QTuple itag None) \<Rightarrow> Continue
      | Inr (QTuple itag (Some quality_profile)) \<Rightarrow>
          if quality_profile = [] then Continue else Profile quality_profile)"

text \<open>The \<open>if "signature=" not in url\<close> block, with \<open>stream_map["s"][idx]\<close>.\<close>

definition ensure_signature ::
    "env \<Rightarrow> dct \<Rightarrow> string \<Rightarrow> nat \<Rightarrow> string \<Rightarrow> YouTube \<Rightarrow> (error + string) \<times> YouTube" where
  "ensure_signature env stream_map js_url idx url st =
     (if \<not> contains ''signature='' url then
        (case map_of stream_map ''s'' of
           None \<Rightarrow> (Inl KeyError, st)
         | Some ss \<Rightarrow>
             if idx < length ss then
               (case get_cipher env st (ss ! idx) js_url of
                  (Inl e, st1) \<Rightarrow> (Inl e, st1)
                | (Inr signature, st1) \<Rightarrow> (Inr (url @ ''&signature='' @ signature), st1))
             else (Inl IndexError, st))
      else (Inr url, st))"

text \<open>The loop \<open>for idx, url in enumerate(video_urls)\<close>.\<close>

fun from_url_loop ::
    "env \<Rightarrow> dct \<Rightarrow> string \<Rightarrow> (nat \<times> string) list \<Rightarrow> YouTube \<Rightarrow> (error + unit) \<times> YouTube" where
  "from_url_loop env stream_map js_url [] st = (Inr (), st)"
| "from_url_loop env stream_map js_url ((idx, url) # rest) st =
     (case try_quality_profile url of
        Continue \<Rightarrow> from_url_loop env stream_map js_url rest st
      | Raised e \<Rightarrow> (Inl e, st)
      | Profile quality_profile \<Rightarrow>
          (case ensure_signature env stream_map js_url idx url st of
             (Inl e, st1) \<Rightarrow> (Inl e, st1)
           | (Inr url1, st1) \<Rightarrow>
               (case filename env st1 of
                  (Inl e, st2) \<Rightarrow> (Inl e, st2)
                | (Inr fname, st2) \<Rightarrow>
                    from_url_loop env stream_map js_url rest
                      (add_video env url1 fname quality_profile st2))))"

text \<open>\<open>"http:" + video_data.get("assets", {}).get("js")\<close>\<close>

definition js_url_of :: "json \<Rightarrow> error + string" where
  "js_url_of video_data =
     (case json_get2 video_data ''assets'' ''js'' of
        Inl e \<Rightarrow> Inl e
      | Inr (JStr js) \<Rightarrow> Inr (''http:'' @ js)
      | Inr _ \<Rightarrow> Inl TypeError)"

definition from_url :: "env \<Rightarrow> string \<Rightarrow> YouTube \<Rightarrow> (error + unit) \<times> YouTube" where
  "from_url env url st =
     (let st1 = st\<lparr>yt_video_url := Some url, yt_filename := None\<rparr> in
      case get_video_data env st1 of
        (Inl e, st2) \<Rightarrow> (Inl e, st2)
      | (Inr video_data, st2) \<Rightarrow>
          (case json_get2 video_data ''args'' ''title'' of
             Inl e \<Rightarrow> (Inl e, st2)
           | Inr title \<Rightarrow>
               (let st3 = st2\<lparr>yt_title := title\<rparr> in
                case js_url_of video_data of
                  Inl e \<Rightarrow> (Inl e, st3)
                | Inr js_url \<Rightarrow>
                    (case json_get2 video_data ''args'' ''stream_map'' of
                       Inl e \<Rightarrow> (Inl e, st3)
                     | Inr (JStreamMap stream_map) \<Rightarrow>
                         (case map_of stream_map ''url'' of
                            None \<Rightarrow> (Inl TypeError, st3)
                          | Some video_urls \<Rightarrow>
                              from_url_loop env stream_map js_url
                                (enumerate 0 video_urls) st3)
                     | Inr _ \<Rightarrow> (Inl AttributeError, st3)))))"

section \<open>\<open>get\<close> and \<open>filter\<close>\<close>

text \<open>The body of the loop over \<open>get_videos()\<close>: whether the video is appended.\<close>

definition meets :: "string option \<Rightarrow> string option \<Rightarrow> string option \<Rightarrow> Video \<Rightarrow> bool" where
  "meets ext res prof v =
     (if truthy ext \<and> extension v \<noteq> ext then False
      else if truthy res \<and> resolution v \<noteq> res then False
      else if truthy prof \<and> profile v \<noteq> prof then False
      else True)"

definition filter_videos ::
    "string option \<Rightarrow> string option \<Rightarrow> string option \<Rightarrow> YouTube \<Rightarrow> Video list" where
  "filter_videos ext res prof st = filter (meets ext res prof) (yt_videos st)"

text \<open>
  What \<open>get\<close> hands to its caller by \<open>return\<close>: a video, or an exception object (the
  \<open>return DoesNotExist(...)\<close> of the source). \<open>Inl\<close> is an exception that is raised.
\<close>

datatype returned = ReturnedVideo Video | ReturnedException error

definition get ::
    "string option \<Rightarrow> string option \<Rightarrow> string option \<Rightarrow> YouTube \<Rightarrow> error + returned" where
  "get ext res prof st =
     (let result = filter (meets ext res prof) (yt_videos st);
          matches = length result
      in if matches \<le> 0 then Inr (ReturnedException (DoesNotExist ''No videos met this criteria.''))
         else if matches = 1 then Inr (ReturnedVideo (hd result))
         else Inl (MultipleObjectsReturned ''Multiple videos met this criteria.''))"

section \<open>An example session\<close>

text \<open>
  Collaborators for one concrete session: \<open>unquote_example\<close> decodes \<open>%3D\<close> and \<open>%26\<close>;
  the page at \<open>http://h/watch\<close> has the body \<open>page\<close>, its configuration \<open>{}\<close> parses to
  an object with the title \<open>T\<close>, the encoded stream map \<open>blob\<close> and the script
  \<open>//s/x.js\<close>; the script's cipher function reverses the signature; every other address
  is unreachable.
\<close>

fun unquote_example :: "string \<Rightarrow> string" where
  "unquote_example [] = []"
| "unquote_example (c # cs) =
     (if take 3 (c # cs) = ''%3D'' then CHR ''='' # unquote_example (drop 2 cs)
      else if take 3 (c # cs) = ''%26'' then CHR ''&'' # unquote_example (drop 2 cs)
      else c # unquote_example cs)"

definition example_config :: "string \<Rightarrow> json" where
  "example_config blob =
     JObj [(''args'', JObj [(''title'', JStr ''T''), (''url_encoded_fmt_stream_map'', JStr blob)]),
           (''assets'', JObj [(''js'', JStr ''//s/x.js'')])]"

definition example_env :: "string \<Rightarrow> string \<Rightarrow> env" where
  "example_env page blob =
     \<lparr>urlopen = (\<lambda>url. if url = ''http://h/watch'' then Inr (Some page)
                       else if url = ''http://s/x.js'' then Inr (Some ''a.sig||f(b)'')
                       else Inl (ExternalError ''unreachable'')),
      json_loads = (\<lambda>text. if text = ''{}'' then Inr (example_config blob) else Inl ValueError),
      unquote = unquote_example,
      JSInterpreter = (\<lambda>code. None),
      extract_call = (\<lambda>code func signature. Inr (rev signature)),
      safe_filename = (\<lambda>title. case title of JStr t \<Rightarrow> Inr t | _ \<Rightarrow> Inl AttributeError),
      video_lt = (\<lambda>v w. False)\<rparr>"

text \<open>
  The session after one resolution of \<open>http://h/watch\<close> with the stream map
  \<open>url=http://h/b?itag%3D18&s=abc\<close>: it has one video, the title and filename \<open>T\<close> and
  the script text. \<open>untitled_env\<close> is the same world with a page whose configuration has
  no title.
\<close>

definition example_video :: Video where
  "example_video =
     \<lparr>v_url = ''http://h/b?itag=18&signature=cba'', v_filename = ''T'',
      extension = Some ''mp4'', resolution = Some ''360p'', video_codec = Some ''H.264'',
      profile = Some ''Baseline'', video_bitrate = Some ''0.5'', audio_codec = Some ''AAC'',
      audio_bitrate = Some ''96''\<rparr>"

definition example_populated :: YouTube where
  "example_populated =
     \<lparr>yt_filename = Some ''T'', yt_video_url = Some ''http://h/watch'',
      yt_js_code = Some ''a.sig||f(b)'', yt_videos = [example_video], yt_title = JStr ''T'',
      yt_fetches = [PageFetch ''http://h/watch'', ScriptFetch ''http://s/x.js'']\<rparr>"

definition untitled_config :: "string \<Rightarrow> json" where
  "untitled_config blob =
     JObj [(''args'', JObj [(''url_encoded_fmt_stream_map'', JStr blob)]),
           (''assets'', JObj [(''js'', JStr ''//s/x.js'')])]"

definition untitled_env :: "string \<Rightarrow> string \<Rightarrow> env" where
  "untitled_env page blob =
     (example_env page blob)
       \<lparr>json_loads := (\<lambda>text. if text = ''{}'' then Inr (untitled_config blob)
                               else Inl ValueError)\<rparr>"

section \<open>Predicates used to state the properties\<close>

text \<open>
  The pieces of an encoded blob, as \<open>_parse_stream_map\<close> cuts it: the comma-separated
  segments, the \<open>&\<close>-separated sub-segments of a segment, and the key and the value of a
  sub-segment \<open>key=value\<close>. A blob is well formed when every sub-segment has exactly one
  \<open>=\<close> and no segment has the same key twice (a segment is a record: a mapping of field
  names to values). \<open>field_values k seg\<close> are the values that the segment has for the
  field \<open>k\<close>; the segment carries the field when there is one.
\<close>

definition known_fields :: "string list" where
  "known_fields = [''itag'', ''url'', ''quality'', ''fallback_host'', ''s'', ''type'']"

definition segments :: "string \<Rightarrow> string list" where
  "segments blob = split_str (CHR '','') blob"

definition sub_segments :: "string \<Rightarrow> string list" where
  "sub_segments seg = split_str (CHR ''&'') seg"

definition kv_key :: "string \<Rightarrow> string" where
  "kv_key kv = hd (split_str (CHR ''='') kv)"

definition kv_val :: "string \<Rightarrow> string" where
  "kv_val kv = hd (tl (split_str (CHR ''='') kv))"

definition well_formed_kv :: "string \<Rightarrow> bool" where
  "well_formed_kv kv = (length (split_str (CHR ''='') kv) = 2)"

definition well_formed :: "string \<Rightarrow> bool" where
  "well_formed blob =
     list_all (\<lambda>seg. list_all well_formed_kv (sub_segments seg)
                   \<and> distinct (map kv_key (sub_segments seg))) (segments blob)"

definition field_values :: "string \<Rightarrow> string \<Rightarrow> string list" where
  "field_values k seg = map kv_val (filter (\<lambda>kv. kv_key kv = k) (sub_segments seg))"

definition carries :: "string \<Rightarrow> string \<Rightarrow> bool" where
  "carries k seg = (k \<in> set (map kv_key (sub_segments seg)))"

text \<open>The number of script fetches that a session has made.\<close>

fun is_script_fetch :: "fetch \<Rightarrow> bool" where
  "is_script_fetch (ScriptFetch url) = True"
| "is_script_fetch (PageFetch url) = False"

definition script_fetches :: "YouTube \<Rightarrow> nat" where
  "script_fetches st = length (filter is_script_fetch (yt_fetches st))"

text \<open>
  The streams that the loop of \<open>from_url\<close> resolves, in the order of the candidate urls:
  for every url with a known quality profile, the video made of the signed url, the
  filename of the session and the profile. The list ends at the first url at which the
  loop raises.
\<close>

fun new_streams ::
    "env \<Rightarrow> dct \<Rightarrow> string \<Rightarrow> (nat \<times> string) list \<Rightarrow> YouTube \<Rightarrow> Video list" where
  "new_streams env stream_map js_url [] st = []"
| "new_streams env stream_map js_url ((idx, url) # rest) st =
     (case try_quality_profile url of
        Continue \<Rightarrow> new_streams env stream_map js_url rest st
      | Raised e \<Rightarrow> []
      | Profile quality_profile \<Rightarrow>
          (case ensure_signature env stream_map js_url idx url st of
             (Inl e, st1) \<Rightarrow> []
           | (Inr url1, st1) \<Rightarrow>
               (case filename env st1 of
                  (Inl e, st2) \<Rightarrow> []
                | (Inr fname, st2) \<Rightarrow>
                    new_Video url1 fname quality_profile
                      # new_streams env stream_map js_url rest
                          (add_video env url1 fname quality_profile st2))))"

text \<open>
  The streams that one call of \<open>from_url\<close> resolves: none when the call fails before the
  loop, the streams of the loop otherwise.
\<close>

definition resolved_streams :: "env \<Rightarrow> string \<Rightarrow> YouTube \<Rightarrow> Video list" where
  "resolved_streams env url st =
     (case get_video_data env (st\<lparr>yt_video_url := Some url, yt_filename := None\<rparr>) of
        (Inl e, st2) \<Rightarrow> []
      | (Inr video_data, st2) \<Rightarrow>
          (case json_get2 video_data ''args'' ''title'' of
             Inl e \<Rightarrow> []
           | Inr title \<Rightarrow>
               (case js_url_of video_data of
                  Inl e \<Rightarrow> []
                | Inr js_url \<Rightarrow>
                    (case json_get2 video_data ''args'' ''stream_map'' of
                       Inr (JStreamMap stream_map) \<Rightarrow>
                         (case map_of stream_map ''url'' of
                            None \<Rightarrow> []
                          | Some video_urls \<Rightarrow>
                              new_streams env stream_map js_url (enumerate 0 video_urls)
                                (st2\<lparr>yt_title := title\<rparr>))
                     | _ \<Rightarrow> []))))"

text \<open>
  The filename of the session is unset or is the safe filename of the title of the
  session.
\<close>

definition filename_from_title :: "env \<Rightarrow> YouTube \<Rightarrow> bool" where
  "filename_from_title env st =
     (case yt_filename st of
        None \<Rightarrow> True
      | Some f \<Rightarrow> safe_filename env (yt_title st) = Inr f)"

text \<open>
  \<open>balanced d m\<close>: the text \<open>m\<close>, read at nesting depth \<open>d\<close>, closes every brace it opens
  and the \<open>d\<close> braces open before it, and never closes more than are open. A balanced brace
  expression (one object) is \<open>{\<close>, a text \<open>m\<close> with \<open>balanced 0 m\<close>, and \<open>}\<close>.
\<close>

fun balanced :: "nat \<Rightarrow> string \<Rightarrow> bool" where
  "balanced d [] = (d = 0)"
| "balanced d (c # cs) =
     (if c = CHR ''{'' then balanced (Suc d) cs
      else if c = CHR ''}'' then 0 < d \<and> balanced (d - 1) cs
      else balanced d cs)"

text \<open>
  \<open>never_empties d s\<close>: starting with \<open>d\<close> entries on the stack, every \<open>}\<close> of \<open>s\<close> finds
  at least two entries there, so that the whole text is read and no pop empties the stack.
\<close>

fun never_empties :: "nat \<Rightarrow> string \<Rightarrow> bool" where
  "never_empties d [] = True"
| "never_empties d (c # cs) =
     (if c = CHR ''{'' then never_empties (Suc d) cs
      else if c = CHR ''}'' then 2 \<le> d \<and> never_empties (d - 1) cs
      else never_empties d cs)"

section \<open>Branches that are never taken\<close>

text \<open>
  The object that \<open>get_video_data\<close> returns has the decoded stream map under
  \<open>args.stream_map\<close>, so \<open>from_url\<close> always finds it there; and
  \<open>_get_quality_profile_from_url\<close> never reaches its last line \<open>return False\<close>.
\<close>

lemma map_of_dict_set: "map_of (dict_set k v kvs) k = Some v"
  by (induction kvs) auto

lemma bundle_stream_map_stored:
  "bundle_stream_map env obj = Inr vd \<Longrightarrow>
   \<exists>d. json_get2 vd ''args'' ''stream_map'' = Inr (JStreamMap d)"
  by (auto simp: bundle_stream_map_def json_get2_def map_of_dict_set
           split: sum.splits json.splits option.splits)

lemma get_video_data_stream_map:
  "get_video_data env st = (Inr vd, st') \<Longrightarrow>
   \<exists>d. json_get2 vd ''args'' ''stream_map'' = Inr (JStreamMap d)"
  by (auto simp: get_video_data_def Let_def
           split: option.splits sum.splits if_splits dest: bundle_stream_map_stored)

lemma get_quality_profile_never_False: "get_quality_profile_from_url url \<noteq> Inr QFalse"
proof -
  have "xs = [] \<or> length xs = 1 \<or> 1 < length xs" for xs :: "string list"
    by (cases xs) auto
  from this[of "findall_itag url"] show ?thesis
    by (auto simp: get_quality_profile_from_url_def Let_def split: option.splits)
qed

section \<open>The bracket scanner\<close>

lemma scan_balanced:
  "balanced d m \<Longrightarrow> length st = Suc d \<Longrightarrow>
   scan_brackets (m @ CHR ''}'' # trailing) st i = Inr (i + length m)"
proof (induction m arbitrary: d st i)
  case Nil
  then show ?case by (cases st) auto
next
  case (Cons c cs)
  show ?case
  proof (cases "c = CHR ''{''")
    case True
    with Cons.prems have "balanced (Suc d) cs" by simp
    from Cons.IH[OF this, of "st @ [CHR ''}'']" "Suc i"] Cons.prems True
    show ?thesis by simp
  next
    case False
    show ?thesis
    proof (cases "c = CHR ''}''")
      case True
      with Cons.prems have d: "0 < d" and b: "balanced (d - 1) cs" by auto
      from d Cons.prems have l: "length (butlast st) = Suc (d - 1)" by simp
      from Cons.IH[OF b l, of "Suc i"] True d Cons.prems l
      show ?thesis by auto
    next
      case F2: False
      with False Cons.prems have "balanced d cs" by simp
      from Cons.IH[OF this, of st "Suc i"] False F2 Cons.prems
      show ?thesis by simp
    qed
  qed
qed

lemma scan_never_empties:
  "length st = d \<Longrightarrow>
   (scan_brackets s st i = Inl (PytubeError ''Unable to determine json offset.''))
     = never_empties d s"
proof (induction s arbitrary: d st i)
  case Nil
  then show ?case by simp
next
  case (Cons c cs)
  show ?case
  proof (cases "c = CHR ''{''")
    case True
    from Cons.IH[of "st @ [CHR ''}'']" "Suc d" "Suc i"] Cons.prems True
    show ?thesis by simp
  next
    case False
    show ?thesis
    proof (cases "c = CHR ''}''")
      case True
      show ?thesis
      proof (cases "2 \<le> d")
        case T2: True
        with Cons.prems have l: "length (butlast st) = d - 1" and ne0: "st \<noteq> []"
          by auto
        from T2 Cons.prems have "length (butlast st) \<noteq> 0" by simp
        then have "butlast st \<noteq> []" by (simp del: length_butlast)
        note ne = ne0 this
        from Cons.IH[OF l, of "Suc i"] True T2 ne Cons.prems show ?thesis by simp
      next
        case F2: False
        then have "d = 0 \<or> d = 1" by arith
        with Cons.prems True show ?thesis by (cases st) auto
      qed
    next
      case F2: False
      from Cons.IH[of st d "Suc i"] Cons.prems False F2 show ?thesis by simp
    qed
  qed
qed

lemma get_json_offset_error_iff:
  "get_json_offset s = Inl (PytubeError ''Unable to determine json offset.'')
     \<longleftrightarrow> never_empties 0 s"
  using scan_never_empties[of "[]" 0 s 0]
  by (auto simp: get_json_offset_def split: sum.splits)

text \<open>
  Claim C3, as the code has it. For a text that is a balanced brace expression
  \<open>{ m }\<close> followed by any trailing text, \<open>_get_json_offset\<close> returns the index of the
  matching top-level closing brace plus one, which is the length of the expression and the
  exclusive end offset of the object (\<open>index = 1\<close> is added to the index of the \<open>break\<close>).
  It raises the "Unable to determine json offset" condition on every text that it reads to
  the end without a pop emptying the stack, that is when every closing brace finds at
  least two entries on the stack.
\<close>

theorem get_json_offset_object_end:
  "(balanced 0 m \<longrightarrow>
      get_json_offset (CHR ''{'' # m @ CHR ''}'' # trailing) = Inr (length m + 2)
      \<and> (CHR ''{'' # m @ CHR ''}'' # trailing) ! (length m + 1) = CHR ''}'')
   \<and> (never_empties 0 s \<longrightarrow>
        get_json_offset s = Inl (PytubeError ''Unable to determine json offset.''))"
proof -
  have a: "get_json_offset (CHR ''{'' # m @ CHR ''}'' # trailing) = Inr (length m + 2)"
    if "balanced 0 m"
    using scan_balanced[OF that, of "[CHR ''}'']" trailing 1]
    by (simp add: get_json_offset_def)
  have b: "(CHR ''{'' # m @ CHR ''}'' # trailing) ! (length m + 1) = CHR ''}''"
    by (simp add: nth_append)
  from a b get_json_offset_error_iff[of s] show ?thesis by blast
qed

theorem get_json_offset_object_end_witness:
  "balanced 0 ''a{b}c''
   \<and> get_json_offset ''{a{b}c}xyz}'' = Inr 7
   \<and> ''{a{b}c}xyz}'' ! 6 = CHR ''}''
   \<and> never_empties 0 ''{{}''
   \<and> get_json_offset ''{{}'' = Inl (PytubeError ''Unable to determine json offset.'')"
  using get_json_offset_object_end [of "''a{b}c''" "''xyz}''" "''{{}''"]
  by simp

text \<open>
  Claim C3 as stated fails on the text \<open>}\<close>: the stack is empty from the start and is never
  emptied by a pop, yet the scanner does not raise the "Unable to determine json offset"
  condition; \<open>brackets.pop()\<close> raises \<open>IndexError\<close>. And on the text \<open>{}\<close> the matching
  closing brace is at offset 1, while the scanner returns 2.
\<close>

theorem get_json_offset_counterexample:
  "get_json_offset ''}'' = Inl IndexError
   \<and> get_json_offset ''}'' \<noteq> Inl (PytubeError ''Unable to determine json offset.'')
   \<and> get_json_offset ''{}'' = Inr 2 \<and> ''{}'' ! 1 = CHR ''}''"
  by (simp add: get_json_offset_def)

section \<open>The stream map decoder\<close>

lemma map_of_get_append:
  "map_of (get_append d key v) k =
     (if k = key then map_option (\<lambda>vs. vs @ [v]) (map_of d k) else map_of d k)"
  by (induction d) (auto simp: get_append_def)

lemma fst_get_append: "map fst (get_append d key v) = map fst d"
  by (induction d) (auto simp: get_append_def)

lemma split_two: "well_formed_kv kv \<Longrightarrow> split_str (CHR ''='') kv = [kv_key kv, kv_val kv]"
  unfolding well_formed_kv_def kv_key_def kv_val_def
  by (cases "split_str (CHR ''='') kv"; simp; cases "tl (split_str (CHR ''='') kv)"; simp)

lemma parse_video_keys:
  "parse_video unq kvs d = Inr d' \<Longrightarrow> map fst d' = map fst d"
proof (induction kvs arbitrary: d)
  case Nil
  then show ?case by simp
next
  case (Cons kv kvs)
  then show ?case
    by (auto simp: fst_get_append split: list.splits)
qed

lemma parse_videos_keys:
  "parse_videos unq vs d = Inr d' \<Longrightarrow> map fst d' = map fst d"
proof (induction vs arbitrary: d)
  case Nil
  then show ?case by simp
next
  case (Cons v vs)
  then show ?case
    by (auto split: sum.splits dest: parse_video_keys)
qed

lemma parse_video_wf:
  "list_all well_formed_kv kvs \<Longrightarrow>
   \<exists>d'. parse_video unq kvs d = Inr d' \<and>
     (\<forall>k. map_of d' k =
        map_option (\<lambda>vs. vs @ map unq (map kv_val (filter (\<lambda>kv. kv_key kv = k) kvs)))
          (map_of d k))"
proof (induction kvs arbitrary: d)
  case Nil
  then show ?case by (simp add: option.map_ident)
next
  case (Cons kv kvs)
  from Cons.prems have wf: "well_formed_kv kv" and rest: "list_all well_formed_kv kvs"
    by simp_all
  from Cons.IH[OF rest, of "get_append d (kv_key kv) (unq (kv_val kv))"]
  obtain d' where d': "parse_video unq kvs (get_append d (kv_key kv) (unq (kv_val kv))) = Inr d'"
    and m: "\<forall>k. map_of d' k =
        map_option (\<lambda>vs. vs @ map unq (map kv_val (filter (\<lambda>kv. kv_key kv = k) kvs)))
          (map_of (get_append d (kv_key kv) (unq (kv_val kv))) k)"
    by blast
  have "parse_video unq (kv # kvs) d = Inr d'"
    using d' by (simp add: split_two[OF wf])
  moreover have "map_of d' k =
        map_option (\<lambda>vs. vs @ map unq (map kv_val (filter (\<lambda>kv. kv_key kv = k) (kv # kvs))))
          (map_of d k)" for k
    using m by (simp add: map_of_get_append option.map_comp comp_def)
  ultimately show ?case by blast
qed

lemma parse_videos_wf:
  "list_all (\<lambda>seg. list_all well_formed_kv (sub_segments seg)) segs \<Longrightarrow>
   \<exists>d'. parse_videos unq (map sub_segments segs) d = Inr d' \<and>
     (\<forall>k. map_of d' k =
        map_option (\<lambda>vs. vs @ map unq (concat (map (field_values k) segs))) (map_of d k))"
proof (induction segs arbitrary: d)
  case Nil
  then show ?case by (simp add: option.map_ident)
next
  case (Cons seg segs)
  from Cons.prems have wf: "list_all well_formed_kv (sub_segments seg)"
    and rest: "list_all (\<lambda>seg. list_all well_formed_kv (sub_segments seg)) segs"
    by simp_all
  from parse_video_wf[OF wf, of unq d]
  obtain d1 where d1: "parse_video unq (sub_segments seg) d = Inr d1"
    and m1: "\<forall>k. map_of d1 k =
        map_option (\<lambda>vs. vs @ map unq (field_values k seg)) (map_of d k)"
    by (auto simp: field_values_def)
  from Cons.IH[OF rest, of d1]
  obtain d' where d': "parse_videos unq (map sub_segments segs) d1 = Inr d'"
    and m: "\<forall>k. map_of d' k =
        map_option (\<lambda>vs. vs @ map unq (concat (map (field_values k) segs))) (map_of d1 k)"
    by blast
  have "parse_videos unq (map sub_segments (seg # segs)) d = Inr d'"
    using d1 d' by simp
  moreover have "map_of d' k =
        map_option (\<lambda>vs. vs @ map unq (concat (map (field_values k) (seg # segs)))) (map_of d k)"
    for k
    using m m1 by (simp add: option.map_comp comp_def)
  ultimately show ?case by blast
qed

lemma filter_distinct_le1:
  "distinct (map f xs) \<Longrightarrow> length (filter (\<lambda>x. f x = k) xs) \<le> 1"
proof (induction xs)
  case Nil
  then show ?case by simp
next
  case (Cons x xs)
  show ?case
  proof (cases "f x = k")
    case True
    with Cons.prems have "k \<notin> f ` set xs" by auto
    then have "filter (\<lambda>x. f x = k) xs = []" by (auto simp: filter_empty_conv)
    with True show ?thesis by simp
  next
    case False
    with Cons show ?thesis by simp
  qed
qed

lemma field_values_le1:
  "distinct (map kv_key (sub_segments seg)) \<Longrightarrow> length (field_values k seg) \<le> 1"
  using filter_distinct_le1[of kv_key "sub_segments seg" k] by (simp add: field_values_def)

lemma carries_iff: "carries k seg \<longleftrightarrow> field_values k seg \<noteq> []"
  by (auto simp: carries_def field_values_def filter_empty_conv)

lemma carriers_singletons:
  "\<forall>seg \<in> set segs. length (field_values k seg) \<le> 1 \<Longrightarrow>
   map (field_values k) (filter (carries k) segs)
     = map (\<lambda>v. [v]) (concat (map (field_values k) segs))"
proof (induction segs)
  case Nil
  then show ?case by simp
next
  case (Cons seg segs)
  then have le: "length (field_values k seg) \<le> 1" by simp
  show ?case
  proof (cases "field_values k seg")
    case Nil
    with Cons show ?thesis by (simp add: carries_iff)
  next
    case (Cons v vs)
    with le have "vs = []" by simp
    with Cons Cons.IH Cons.prems \<open>\<forall>seg\<in>set (seg # segs). length (field_values k seg) \<le> 1\<close>
    show ?thesis by (simp add: carries_iff)
  qed
qed

text \<open>
  Claim C1. For a well-formed blob the decoder returns the mapping of the six field names
  to sequences of values, and for every field \<open>k\<close> the sequence holds exactly one value
  per segment that carries \<open>k\<close>, in the order of the segments: its i-th value is the
  unquoted value of \<open>k\<close> in the i-th segment that carries \<open>k\<close>. When every segment carries
  the field, the sequence has one entry per comma-separated segment.
\<close>

theorem parse_stream_map_segment_order:
  assumes wf: "well_formed blob" and k: "k \<in> set known_fields"
  shows "\<exists>d vals. parse_stream_map unq blob = Inr d
           \<and> map fst d = known_fields
           \<and> map_of d k = Some vals
           \<and> map (\<lambda>v. [v]) vals
               = map (\<lambda>seg. map unq (field_values k seg)) (filter (carries k) (segments blob))
           \<and> ((\<forall>seg \<in> set (segments blob). carries k seg)
                \<longrightarrow> length vals = length (segments blob))"
proof -
  let ?segs = "segments blob"
  from wf have wf1: "list_all (\<lambda>seg. list_all well_formed_kv (sub_segments seg)) ?segs"
    and dist: "\<forall>seg \<in> set ?segs. distinct (map kv_key (sub_segments seg))"
    by (auto simp: well_formed_def list_all_iff)
  from parse_videos_wf[OF wf1, of unq dct_init]
  obtain d where d: "parse_videos unq (map sub_segments ?segs) dct_init = Inr d"
    and m: "\<forall>k. map_of d k =
        map_option (\<lambda>vs. vs @ map unq (concat (map (field_values k) ?segs))) (map_of dct_init k)"
    by blast
  have p: "parse_stream_map unq blob = Inr d"
    using d by (simp add: parse_stream_map_def segments_def sub_segments_def[abs_def])
  have keys: "map fst d = known_fields"
    using parse_videos_keys[OF d] by (simp add: dct_init_def known_fields_def)
  from k have "map_of dct_init k = Some []"
    by (auto simp: known_fields_def dct_init_def)
  with m have v: "map_of d k = Some (map unq (concat (map (field_values k) ?segs)))"
    by simp
  let ?vals = "map unq (concat (map (field_values k) ?segs))"
  from dist have le: "\<forall>seg \<in> set ?segs. length (field_values k seg) \<le> 1"
    using field_values_le1 by blast
  have "map (\<lambda>v. [v]) ?vals = map (map unq) (map (\<lambda>v. [v]) (concat (map (field_values k) ?segs)))"
    by (simp add: comp_def)
  also have "\<dots> = map (map unq) (map (field_values k) (filter (carries k) ?segs))"
    by (simp only: carriers_singletons[OF le])
  finally have ord: "map (\<lambda>v. [v]) ?vals
      = map (\<lambda>seg. map unq (field_values k seg)) (filter (carries k) ?segs)"
    by (simp add: comp_def)
  have cnt: "length ?vals = length ?segs" if "\<forall>seg \<in> set ?segs. carries k seg"
  proof -
    from that have "filter (carries k) ?segs = ?segs" by simp
    with ord have "map (\<lambda>v. [v]) ?vals = map (\<lambda>seg. map unq (field_values k seg)) ?segs"
      by simp
    then have "length (map (\<lambda>v. [v]) ?vals) = length (map (\<lambda>seg. map unq (field_values k seg)) ?segs)"
      by (rule arg_cong)
    then show ?thesis by (simp del: map_map)
  qed
  from p keys v ord cnt show ?thesis by blast
qed

theorem parse_stream_map_segment_order_witness:
  "well_formed ''itag=22&url=a&s=X,itag=5&url=c''
   \<and> ''itag'' \<in> set known_fields
   \<and> segments ''itag=22&url=a&s=X,itag=5&url=c'' = [''itag=22&url=a&s=X'', ''itag=5&url=c'']
   \<and> carries ''itag'' ''itag=22&url=a&s=X'' \<and> carries ''itag'' ''itag=5&url=c''
   \<and> (\<exists>d vals. parse_stream_map (\<lambda>x. x) ''itag=22&url=a&s=X,itag=5&url=c'' = Inr d
         \<and> map_of d ''itag'' = Some vals
         \<and> map (\<lambda>v. [v]) vals
             = map (\<lambda>seg. map (\<lambda>x. x) (field_values ''itag'' seg))
                 (filter (carries ''itag'') (segments ''itag=22&url=a&s=X,itag=5&url=c''))
         \<and> length vals = length (segments ''itag=22&url=a&s=X,itag=5&url=c''))"
proof -
  have wf: "well_formed ''itag=22&url=a&s=X,itag=5&url=c''" by code_simp
  have k: "''itag'' \<in> set known_fields" by (simp add: known_fields_def)
  have s: "segments ''itag=22&url=a&s=X,itag=5&url=c'' = [''itag=22&url=a&s=X'', ''itag=5&url=c'']"
    by code_simp
  have c1: "carries ''itag'' ''itag=22&url=a&s=X''" by code_simp
  have c2: "carries ''itag'' ''itag=5&url=c''" by code_simp
  from s c1 c2
  have c: "\<forall>seg \<in> set (segments ''itag=22&url=a&s=X,itag=5&url=c''). carries ''itag'' seg"
    by simp
  from parse_stream_map_segment_order [OF wf k, of "\<lambda>x. x"] c wf k s c1 c2
  show ?thesis by blast
qed

text \<open>
  Claim C5, as the code has it. The output of the decoder has the six known field names
  as its keys and no other: a sub-segment with another key must be well formed, but its
  key is not a key of the output (and by the theorem for C1 the sequences of the known
  fields hold the values of the known fields only).
\<close>

theorem parse_stream_map_known_fields_only:
  "parse_stream_map unq blob = Inr d \<Longrightarrow>
     map fst d = known_fields \<and> (key \<notin> set known_fields \<longrightarrow> map_of d key = None)"
proof -
  assume a: "parse_stream_map unq blob = Inr d"
  then have "map fst d = map fst dct_init"
    by (auto simp: parse_stream_map_def dest: parse_videos_keys)
  then have keys: "map fst d = known_fields" by (simp add: dct_init_def known_fields_def)
  have "map_of d key = None" if "key \<notin> set known_fields"
    using that keys by (metis map_of_eq_None_iff set_map)
  with keys show ?thesis by blast
qed

theorem parse_stream_map_known_fields_only_witness:
  "parse_stream_map (\<lambda>x. x) ''itag=22&foo=bar''
     = Inr [(''itag'', [''22'']), (''url'', []), (''quality'', []), (''fallback_host'', []),
            (''s'', []), (''type'', [])]
   \<and> ''foo'' \<notin> set known_fields
   \<and> map_of [(''itag'', [''22'']), (''url'', []), (''quality'', []), (''fallback_host'', []),
            (''s'', []), (''type'', [])] ''foo'' = None"
proof -
  have p: "parse_stream_map (\<lambda>x. x) ''itag=22&foo=bar''
     = Inr [(''itag'', [''22'']), (''url'', []), (''quality'', []), (''fallback_host'', []),
            (''s'', []), (''type'', [])]"
    by (simp add: parse_stream_map_def dct_init_def get_append_def)
  have u: "''foo'' \<notin> set known_fields" by (simp add: known_fields_def)
  from parse_stream_map_known_fields_only [OF p, of "''foo''"] p u
  show ?thesis by blast
qed

text \<open>
  Claim C5 as stated fails: in the blob \<open>itag=22&foo=bar\<close> the key \<open>foo\<close> is not a known
  field name, and neither \<open>foo\<close> nor its value \<open>bar\<close> is in the decoder's output.
\<close>

theorem parse_stream_map_unknown_key_counterexample:
  "parse_stream_map (\<lambda>x. x) ''itag=22&foo=bar''
     = Inr [(''itag'', [''22'']), (''url'', []), (''quality'', []), (''fallback_host'', []),
            (''s'', []), (''type'', [])]"
  by (simp add: parse_stream_map_def dct_init_def get_append_def)

section \<open>The itag of a candidate url\<close>



section \<open>The quality profile table\<close>

text \<open>
  Claim C4. The lookup for itag 22 gives the seven fields mp4, 720p, H.264, High, 2-2.9,
  AAC, 192, and the lookup for an itag that is not a key of the table gives \<open>None\<close>; the
  lookup is a total function, it never raises. The caller skips such a candidate: a url
  whose single itag is not in the table leaves the session as it is and the loop of
  \<open>from_url\<close> goes on with the remaining urls.
\<close>

theorem profiles_get_22_and_unknown:
  "profiles_get 22 = Some [''mp4'', ''720p'', ''H.264'', ''High'', ''2-2.9'', ''AAC'', ''192'']
   \<and> (itag \<notin> {5, 17, 36, 43, 100, 18, 22, 82, 83, 84, 85} \<longrightarrow> profiles_get itag = None)
   \<and> (findall_itag url = [ds]
        \<and> int_of_digits ds \<notin> {5, 17, 36, 43, 100, 18, 22, 82, 83, 84, 85} \<longrightarrow>
      from_url_loop env stream_map js_url ((idx, url) # rest) st
        = from_url_loop env stream_map js_url rest st)"
proof -
  have n: "profiles_get i = None" if "i \<notin> {5, 17, 36, 43, 100, 18, 22, 82, 83, 84, 85}" for i
    using that by (simp add: profiles_get_def YT_QUALITY_PROFILES_def)
  have a: "profiles_get 22
      = Some [''mp4'', ''720p'', ''H.264'', ''High'', ''2-2.9'', ''AAC'', ''192'']"
    by (simp add: profiles_get_def YT_QUALITY_PROFILES_def)
  have c: "from_url_loop env stream_map js_url ((idx, url) # rest) st
        = from_url_loop env stream_map js_url rest st"
    if "findall_itag url = [ds]" "int_of_digits ds \<notin> {5, 17, 36, 43, 100, 18, 22, 82, 83, 84, 85}"
    using that n[of "int_of_digits ds"]
    by (simp add: try_quality_profile_def get_quality_profile_from_url_def)
  from a n c show ?thesis by blast
qed

theorem profiles_get_22_and_unknown_witness:
  "(999::int) \<notin> {5, 17, 36, 43, 100, 18, 22, 82, 83, 84, 85} \<and> profiles_get 999 = None
   \<and> findall_itag ''http://h/b?itag=999'' = [''999'']
   \<and> int_of_digits ''999'' \<notin> {5, 17, 36, 43, 100, 18, 22, 82, 83, 84, 85}
   \<and> from_url_loop (example_env ''p'' ''b'') [] ''http://s/x.js''
        [(0, ''http://h/b?itag=999'')] init = (Inr (), init)"
proof -
  have f: "findall_itag ''http://h/b?itag=999'' = [''999'']" by code_simp
  have i: "int_of_digits ''999'' = 999" by (simp add: int_of_digits_def digit_val_def)
  from profiles_get_22_and_unknown
         [of 999 "''http://h/b?itag=999''" "''999''" "example_env ''p'' ''b''" "[]"
             "''http://s/x.js''" 0 "[]" init] f i
  show ?thesis by simp
qed

section \<open>The age restriction marker\<close>

text \<open>\<open>contains\<close> is the substring test.\<close>

lemma contains_iff: "contains sub s \<longleftrightarrow> (\<exists>a b. s = a @ sub @ b)"
proof (induction s)
  case Nil
  then show ?case by auto
next
  case (Cons c cs)
  have t: "take (length sub) (c # cs) = sub \<longleftrightarrow> (\<exists>b. c # cs = sub @ b)"
    by (metis append_eq_conv_conj)
  show ?case
  proof
    assume "contains sub (c # cs)"
    then consider "take (length sub) (c # cs) = sub" | "contains sub cs" by auto
    then show "\<exists>a b. c # cs = a @ sub @ b"
    proof cases
      case 1
      with t obtain b where "c # cs = sub @ b" by blast
      then have "c # cs = [] @ sub @ b" by simp
      then show ?thesis by blast
    next
      case 2
      with Cons.IH obtain a b where "cs = a @ sub @ b" by blast
      then have "c # cs = (c # a) @ sub @ b" by simp
      then show ?thesis by blast
    qed
  next
    assume "\<exists>a b. c # cs = a @ sub @ b"
    then obtain a b where ab: "c # cs = a @ sub @ b" by blast
    show "contains sub (c # cs)"
    proof (cases a)
      case Nil
      with ab have "c # cs = sub @ b" by simp
      with t have "take (length sub) (c # cs) = sub" by blast
      then show ?thesis by simp
    next
      case (Cons x xs)
      with ab have "cs = xs @ sub @ b" by simp
      with Cons.IH show ?thesis by auto
    qed
  qed
qed

text \<open>
  Claim C7. When the fetched page text contains \<open>og:restrictions:age\<close>, \<open>from_url\<close>
  raises \<open>AgeRestricted\<close>, whatever the rest of the page, \<open>json.loads\<close> and the other
  collaborators are: the outcome and the session after it are fixed before the bracket
  scan and the JSON parse, which are not reached (the session has the new url, no
  filename, no title, one more page fetch and nothing else changed).
\<close>

theorem from_url_age_restricted:
  "urlopen env url = Inr (Some html) \<Longrightarrow> contains ''og:restrictions:age'' html \<Longrightarrow>
   from_url env url st =
     (Inl (AgeRestricted ''Age restricted video. Unable to download without being signed in.''),
      st\<lparr>yt_video_url := Some url, yt_filename := None, yt_title := JNull,
         yt_fetches := yt_fetches st @ [PageFetch url]\<rparr>)"
  by (simp add: from_url_def get_video_data_def)

theorem from_url_age_restricted_witness:
  "urlopen (example_env ''<meta og:restrictions:age>ytplayer.config = {};'' ''url=u'') ''http://h/watch''
     = Inr (Some ''<meta og:restrictions:age>ytplayer.config = {};'')
   \<and> contains ''og:restrictions:age'' ''<meta og:restrictions:age>ytplayer.config = {};''
   \<and> from_url (example_env ''<meta og:restrictions:age>ytplayer.config = {};'' ''url=u'')
         ''http://h/watch'' init
       = (Inl (AgeRestricted ''Age restricted video. Unable to download without being signed in.''),
          init\<lparr>yt_video_url := Some ''http://h/watch'', yt_filename := None, yt_title := JNull,
               yt_fetches := yt_fetches init @ [PageFetch ''http://h/watch'']\<rparr>)"
proof -
  have h1: "urlopen (example_env ''<meta og:restrictions:age>ytplayer.config = {};'' ''url=u'') ''http://h/watch''
     = Inr (Some ''<meta og:restrictions:age>ytplayer.config = {};'')"
    by (simp add: example_env_def)
  have h2: "contains ''og:restrictions:age'' ''<meta og:restrictions:age>ytplayer.config = {};''"
    by code_simp
  from from_url_age_restricted [OF h1 h2, of init] h1 h2 show ?thesis by blast
qed

section \<open>The single-match query\<close>

lemma get_outcomes:
  "(filter_videos ext res prof st = [] \<longrightarrow>
      get ext res prof st = Inr (ReturnedException (DoesNotExist ''No videos met this criteria.'')))
   \<and> (filter_videos ext res prof st = [v] \<longrightarrow> get ext res prof st = Inr (ReturnedVideo v))
   \<and> (1 < length (filter_videos ext res prof st) \<longrightarrow>
      get ext res prof st = Inl (MultipleObjectsReturned ''Multiple videos met this criteria.''))"
proof -
  let ?r = "filter (meets ext res prof) (yt_videos st)"
  have "?r \<noteq> [] \<and> length ?r \<noteq> 1" if "1 < length ?r"
    using that by auto
  then show ?thesis
    by (auto simp: get_def filter_videos_def Let_def)
qed


text \<open>
  Claim C8 at a session without videos. No video meets the criteria, and \<open>get\<close> does not
  raise: it returns a \<open>DoesNotExist\<close> exception object to its caller as an ordinary result
  (\<open>return DoesNotExist(...)\<close>), where more than one match raises
  \<open>MultipleObjectsReturned\<close>.
\<close>

theorem get_no_match_returns_exception:
  "get None None None init
     = Inr (ReturnedException (DoesNotExist ''No videos met this criteria.''))"
  by (simp add: get_def init_def)

section \<open>Failures in the loop of \<open>from_url\<close>\<close>

text \<open>
  Claim C2, as the code has it. In the loop over the candidate urls, a record whose
  single itag is not in the quality table is skipped and the loop goes on with the
  remaining records. A record whose url has no itag or more than one itag ends the whole
  call with the \<open>PytubeError\<close> of the classification (the \<open>except\<close> clause catches
  \<open>TypeError\<close> and \<open>KeyError\<close> only), and a failing cipher resolution ends the whole call
  with the error of \<open>_get_cipher\<close> (it is called outside the \<open>try\<close> block); the remaining
  records are not looked at. A failure of \<open>get_video_data\<close> (page fetch, age restriction,
  configuration extraction, stream map decoding) ends the whole call as well.
\<close>

theorem from_url_loop_failure_policy:
  "(findall_itag url = [ds] \<and> profiles_get (int_of_digits ds) = None \<longrightarrow>
      from_url_loop env stream_map js_url ((idx, url) # rest) st
        = from_url_loop env stream_map js_url rest st)
   \<and> (findall_itag url = [] \<longrightarrow>
      from_url_loop env stream_map js_url ((idx, url) # rest) st
        = (Inl (PytubeError ''Unable to get encoding profile, no itag found.''), st))
   \<and> (1 < length (findall_itag url) \<longrightarrow>
      from_url_loop env stream_map js_url ((idx, url) # rest) st
        = (Inl (PytubeError ''Unable to get encoding profile, multiple itags found.''), st))
   \<and> (try_quality_profile url = Profile quality_profile
        \<and> \<not> contains ''signature='' url
        \<and> map_of stream_map ''s'' = Some ss \<and> idx < length ss
        \<and> get_cipher env st (ss ! idx) js_url = (Inl e, st1) \<longrightarrow>
      from_url_loop env stream_map js_url ((idx, url) # rest) st = (Inl e, st1))
   \<and> (get_video_data env (st\<lparr>yt_video_url := Some page, yt_filename := None\<rparr>) = (Inl e, st1) \<longrightarrow>
      from_url env page st = (Inl e, st1))"
proof -
  have a: "from_url_loop env stream_map js_url ((idx, url) # rest) st
        = from_url_loop env stream_map js_url rest st"
    if "findall_itag url = [ds]" "profiles_get (int_of_digits ds) = None"
    using that by (simp add: try_quality_profile_def get_quality_profile_from_url_def)
  have b: "from_url_loop env stream_map js_url ((idx, url) # rest) st
        = (Inl (PytubeError ''Unable to get encoding profile, no itag found.''), st)"
    if "findall_itag url = []"
    using that by (simp add: try_quality_profile_def get_quality_profile_from_url_def)
  have c: "from_url_loop env stream_map js_url ((idx, url) # rest) st
        = (Inl (PytubeError ''Unable to get encoding profile, multiple itags found.''), st)"
    if "1 < length (findall_itag url)"
  proof -
    from that have "findall_itag url \<noteq> []" "length (findall_itag url) \<noteq> 1" by auto
    with that show ?thesis
      by (simp add: try_quality_profile_def get_quality_profile_from_url_def Let_def)
  qed
  have d: "from_url_loop env stream_map js_url ((idx, url) # rest) st = (Inl e, st1)"
    if "try_quality_profile url = Profile quality_profile" "\<not> contains ''signature='' url"
       "map_of stream_map ''s'' = Some ss" "idx < length ss"
       "get_cipher env st (ss ! idx) js_url = (Inl e, st1)"
    using that by (simp add: ensure_signature_def)
  have f: "from_url env page st = (Inl e, st1)"
    if "get_video_data env (st\<lparr>yt_video_url := Some page, yt_filename := None\<rparr>) = (Inl e, st1)"
    using that by (simp add: from_url_def)
  from a b c d f show ?thesis by blast
qed

theorem from_url_loop_failure_policy_witness:
  "findall_itag ''http://h/b?itag=999'' = [''999''] \<and> profiles_get (int_of_digits ''999'') = None
   \<and> from_url_loop (example_env ''p'' ''b'') [(''s'', [''abc''])] ''http://s/x.js''
        [(0, ''http://h/b?itag=999'')] init = (Inr (), init)
   \<and> findall_itag ''http://h/a'' = []
   \<and> from_url_loop (example_env ''p'' ''b'') [(''s'', [''abc''])] ''http://s/x.js''
        [(0, ''http://h/a''), (1, ''http://h/b?itag=999'')] init
        = (Inl (PytubeError ''Unable to get encoding profile, no itag found.''), init)
   \<and> 1 < length (findall_itag ''http://h/v?itag=22&x=itag=5'')
   \<and> from_url_loop (example_env ''p'' ''b'') [(''s'', [''abc''])] ''http://s/x.js''
        [(0, ''http://h/v?itag=22&x=itag=5''), (1, ''http://h/b?itag=999'')] init
        = (Inl (PytubeError ''Unable to get encoding profile, multiple itags found.''), init)
   \<and> try_quality_profile ''http://h/c?itag=22''
        = Profile (zip YT_QUALITY_PROFILE_KEYS
                    [''mp4'', ''720p'', ''H.264'', ''High'', ''2-2.9'', ''AAC'', ''192''])
   \<and> \<not> contains ''signature='' ''http://h/c?itag=22''
   \<and> map_of [(''s'', [''abc''])] ''s'' = Some [''abc''] \<and> (0::nat) < length [''abc'']
   \<and> get_cipher (example_env ''p'' ''b'') init ([''abc''] ! 0) ''http://s/missing.js''
        = (Inl (ExternalError ''unreachable''),
           init\<lparr>yt_fetches := [ScriptFetch ''http://s/missing.js'']\<rparr>)
   \<and> from_url_loop (example_env ''p'' ''b'') [(''s'', [''abc''])] ''http://s/missing.js''
        [(0, ''http://h/c?itag=22''), (1, ''http://h/b?itag=999'')] init
        = (Inl (ExternalError ''unreachable''),
           init\<lparr>yt_fetches := [ScriptFetch ''http://s/missing.js'']\<rparr>)
   \<and> get_video_data (example_env ''p'' ''b'')
        (init\<lparr>yt_video_url := Some ''http://h/gone'', yt_filename := None\<rparr>)
        = (Inl (ExternalError ''unreachable''),
           init\<lparr>yt_video_url := Some ''http://h/gone'', yt_filename := None, yt_title := JNull,
                yt_fetches := [PageFetch ''http://h/gone'']\<rparr>)
   \<and> from_url (example_env ''p'' ''b'') ''http://h/gone'' init
        = (Inl (ExternalError ''unreachable''),
           init\<lparr>yt_video_url := Some ''http://h/gone'', yt_filename := None, yt_title := JNull,
                yt_fetches := [PageFetch ''http://h/gone'']\<rparr>)"
proof -
  let ?env = "example_env ''p'' ''b''"
  let ?sm = "[(''s'', [''abc''])] :: dct"
  have a1: "findall_itag ''http://h/b?itag=999'' = [''999'']" by code_simp
  have a2: "profiles_get (int_of_digits ''999'') = None" by code_simp
  have b1: "findall_itag ''http://h/a'' = []" by code_simp
  have c1: "1 < length (findall_itag ''http://h/v?itag=22&x=itag=5'')" by code_simp
  have d1: "try_quality_profile ''http://h/c?itag=22''
        = Profile (zip YT_QUALITY_PROFILE_KEYS
                    [''mp4'', ''720p'', ''H.264'', ''High'', ''2-2.9'', ''AAC'', ''192''])"
    by code_simp
  have d2: "\<not> contains ''signature='' ''http://h/c?itag=22''" by code_simp
  have d3: "map_of ?sm ''s'' = Some [''abc'']" by simp
  have d4: "(0::nat) < length [''abc'']" by simp
  have d5: "get_cipher ?env init ([''abc''] ! 0) ''http://s/missing.js''
        = (Inl (ExternalError ''unreachable''),
           init\<lparr>yt_fetches := [ScriptFetch ''http://s/missing.js'']\<rparr>)"
    by (simp add: get_cipher_def init_def truthy_def example_env_def)
  have e1: "get_video_data ?env (init\<lparr>yt_video_url := Some ''http://h/gone'', yt_filename := None\<rparr>)
        = (Inl (ExternalError ''unreachable''),
           init\<lparr>yt_video_url := Some ''http://h/gone'', yt_filename := None, yt_title := JNull,
                yt_fetches := [PageFetch ''http://h/gone'']\<rparr>)"
    by (simp add: get_video_data_def init_def example_env_def)
  note t1 = from_url_loop_failure_policy [of "''http://h/b?itag=999''" "''999''" ?env ?sm "''http://s/x.js''" 0 "[]" init]
  note t2 = from_url_loop_failure_policy [of "''http://h/a''" _ ?env ?sm "''http://s/x.js''" 0
                   "[(1, ''http://h/b?itag=999'')]" init]
  note t3 = from_url_loop_failure_policy [of "''http://h/v?itag=22&x=itag=5''" _ ?env ?sm "''http://s/x.js''" 0
                   "[(1, ''http://h/b?itag=999'')]" init]
  note t4 = from_url_loop_failure_policy [of "''http://h/c?itag=22''" _ ?env ?sm "''http://s/missing.js''" 0
                   "[(1, ''http://h/b?itag=999'')]" init
                   "zip YT_QUALITY_PROFILE_KEYS
                      [''mp4'', ''720p'', ''H.264'', ''High'', ''2-2.9'', ''AAC'', ''192'']"
                   "[''abc'']" "ExternalError ''unreachable''"
                   "init\<lparr>yt_fetches := [ScriptFetch ''http://s/missing.js'']\<rparr>"]
  note t5 = from_url_loop_failure_policy [of _ _ ?env _ _ _ _ init _ _ "ExternalError ''unreachable''"
                   "init\<lparr>yt_video_url := Some ''http://h/gone'', yt_filename := None,
                        yt_title := JNull, yt_fetches := [PageFetch ''http://h/gone'']\<rparr>"
                   "''http://h/gone''"]
  have r1: "from_url_loop ?env ?sm ''http://s/x.js'' [(0, ''http://h/b?itag=999'')] init = (Inr (), init)"
    using t1 a1 a2 by simp
  have r2: "from_url_loop ?env ?sm ''http://s/x.js''
        [(0, ''http://h/a''), (1, ''http://h/b?itag=999'')] init
        = (Inl (PytubeError ''Unable to get encoding profile, no itag found.''), init)"
    using t2 b1 by blast
  have r3: "from_url_loop ?env ?sm ''http://s/x.js''
        [(0, ''http://h/v?itag=22&x=itag=5''), (1, ''http://h/b?itag=999'')] init
        = (Inl (PytubeError ''Unable to get encoding profile, multiple itags found.''), init)"
    using t3 c1 by blast
  have r4: "from_url_loop ?env ?sm ''http://s/missing.js''
        [(0, ''http://h/c?itag=22''), (1, ''http://h/b?itag=999'')] init
        = (Inl (ExternalError ''unreachable''),
           init\<lparr>yt_fetches := [ScriptFetch ''http://s/missing.js'']\<rparr>)"
    using t4 d1 d2 d3 d4 d5 by blast
  have r5: "from_url ?env ''http://h/gone'' init
        = (Inl (ExternalError ''unreachable''),
           init\<lparr>yt_video_url := Some ''http://h/gone'', yt_filename := None, yt_title := JNull,
                yt_fetches := [PageFetch ''http://h/gone'']\<rparr>)"
    using t5 e1 by blast
  from a1 a2 r1 b1 r2 c1 r3 d1 d2 d3 d4 d5 r4 e1 r5 show ?thesis by blast
qed

text \<open>
  Claim C2 as stated fails. The stream map has two records: the url of the first has no
  itag, the second is a known format with a signature. \<open>from_url\<close> raises the "no itag
  found" condition at the first record and the second is never added: the collection
  stays empty.
\<close>

theorem from_url_no_itag_counterexample:
  "from_url (example_env ''ytplayer.config = {};''
               ''url=http://h/a,url=http://h/b?itag%3D18%26signature%3D1'')
     ''http://h/watch'' init
   = (Inl (PytubeError ''Unable to get encoding profile, no itag found.''),
      \<lparr>yt_filename = None, yt_video_url = Some ''http://h/watch'', yt_js_code = None,
       yt_videos = [], yt_title = JStr ''T'', yt_fetches = [PageFetch ''http://h/watch'']\<rparr>)"
  by code_simp

section \<open>The script cache\<close>

lemma cipher_try_Inr_nonempty:
  "cipher_try env (Some code) signature = Inr r \<Longrightarrow> code \<noteq> []"
  by (auto simp: cipher_try_def split: option.splits sum.splits)

lemma get_cipher_cached:
  "truthy (yt_js_code st) \<Longrightarrow>
   get_cipher env st signature url = (cipher_try env (yt_js_code st) signature, st)"
  by (simp add: get_cipher_def)

lemma get_cipher_fetches:
  "script_fetches (snd (get_cipher env st signature url))
     = script_fetches st + (if truthy (yt_js_code st) then 0 else 1)"
  by (auto simp: get_cipher_def script_fetches_def Let_def split: sum.splits option.splits)

lemma get_cipher_Inr_truthy:
  "get_cipher env st signature url = (Inr r, st1) \<Longrightarrow> truthy (yt_js_code st1)"
  by (auto simp: get_cipher_def Let_def truthy_def
           split: if_splits sum.splits option.splits dest: cipher_try_Inr_nonempty)

lemma ensure_signature_fetches:
  "script_fetches (snd (ensure_signature env sm js idx url st))
     \<le> script_fetches st + (if truthy (yt_js_code st) then 0 else 1)"
proof -
  have "script_fetches (snd (get_cipher env st s js))
     \<le> script_fetches st + (if truthy (yt_js_code st) then 0 else 1)" for s
    by (simp add: get_cipher_fetches)
  then show ?thesis
    by (auto simp: ensure_signature_def split: option.splits prod.splits sum.splits)
       (metis snd_conv)+
qed

lemma ensure_signature_truthy:
  "ensure_signature env sm js idx url st = (r, st1) \<Longrightarrow>
   truthy (yt_js_code st) \<Longrightarrow> st1 = st"
  by (auto simp: ensure_signature_def get_cipher_cached
           split: if_splits option.splits prod.splits sum.splits)

lemma ensure_signature_Inr:
  "ensure_signature env sm js idx url st = (Inr r, st1) \<Longrightarrow>
   truthy (yt_js_code st1) \<or> st1 = st"
  by (auto simp: ensure_signature_def
           split: if_splits option.splits prod.splits sum.splits
           dest: get_cipher_Inr_truthy)

lemma filename_frame:
  "filename env st = (r, st1) \<Longrightarrow>
   yt_js_code st1 = yt_js_code st \<and> yt_fetches st1 = yt_fetches st"
  by (auto simp: filename_def split: if_splits sum.splits)

lemma add_video_frame:
  "yt_js_code (add_video env u f kw st) = yt_js_code st
   \<and> yt_fetches (add_video env u f kw st) = yt_fetches st"
  by (simp add: add_video_def)

lemma from_url_loop_fetches:
  "script_fetches (snd (from_url_loop env sm js xs st))
     \<le> script_fetches st + (if truthy (yt_js_code st) then 0 else 1)"
proof (induction xs arbitrary: st)
  case Nil
  then show ?case by simp
next
  case (Cons x xs)
  obtain idx url where x: "x = (idx, url)" by (cases x)
  show ?case
  proof (cases "try_quality_profile url")
    case Continue
    with x Cons.IH[of st] show ?thesis by simp
  next
    case (Raised e)
    with x show ?thesis by simp
  next
    case (Profile qp)
    obtain r st1 where es: "ensure_signature env sm js idx url st = (r, st1)"
      by (cases "ensure_signature env sm js idx url st")
    from ensure_signature_fetches[of env sm js idx url st] es
    have f1: "script_fetches st1 \<le> script_fetches st + (if truthy (yt_js_code st) then 0 else 1)"
      by simp
    show ?thesis
    proof (cases r)
      case (Inl e)
      with x Profile es f1 show ?thesis by simp
    next
      case (Inr url1)
      obtain r2 st2 where fn: "filename env st1 = (r2, st2)" by (cases "filename env st1")
      from filename_frame[OF fn] have fr: "yt_js_code st2 = yt_js_code st1"
        "script_fetches st2 = script_fetches st1" by (simp_all add: script_fetches_def)
      show ?thesis
      proof (cases r2)
        case Inl2: (Inl e)
        with x Profile es Inr fn f1 fr show ?thesis by simp
      next
        case Inr2: (Inr fname)
        let ?st3 = "add_video env url1 fname qp st2"
        have fr3: "yt_js_code ?st3 = yt_js_code st1" "script_fetches ?st3 = script_fetches st1"
          using add_video_frame[of env url1 fname qp st2] fr by (simp_all add: script_fetches_def)
        have res: "from_url_loop env sm js (x # xs) st = from_url_loop env sm js xs ?st3"
          using x Profile es Inr fn Inr2 by simp
        have ih: "script_fetches (snd (from_url_loop env sm js xs ?st3))
                    \<le> script_fetches st1 + (if truthy (yt_js_code st1) then 0 else 1)"
          using Cons.IH[of ?st3] fr3 by simp
        from es Inr have "truthy (yt_js_code st1) \<or> st1 = st"
          using ensure_signature_Inr by blast
        then show ?thesis
        proof
          assume t: "truthy (yt_js_code st1)"
          with ih f1 res show ?thesis by simp
        next
          assume "st1 = st"
          with ih res show ?thesis by simp
        qed
      qed
    qed
  qed
qed

lemma get_video_data_frame:
  "get_video_data env st = (r, st1) \<Longrightarrow>
   yt_js_code st1 = yt_js_code st \<and> script_fetches st1 = script_fetches st"
  by (auto simp: get_video_data_def Let_def script_fetches_def
           split: option.splits sum.splits if_splits)

lemma from_url_fetches:
  "script_fetches (snd (from_url env url st))
     \<le> script_fetches st + (if truthy (yt_js_code st) then 0 else 1)"
proof -
  let ?st1 = "st\<lparr>yt_video_url := Some url, yt_filename := None\<rparr>"
  obtain r st2 where g: "get_video_data env ?st1 = (r, st2)"
    by (cases "get_video_data env ?st1")
  from get_video_data_frame[OF g]
  have fr: "yt_js_code st2 = yt_js_code st" "script_fetches st2 = script_fetches st"
    by (simp_all add: script_fetches_def)
  have l: "script_fetches (snd (from_url_loop env sm js xs (st2\<lparr>yt_title := t\<rparr>)))
    \<le> script_fetches st + (if truthy (yt_js_code st) then 0 else 1)" for sm js xs t
    using from_url_loop_fetches[of env sm js xs "st2\<lparr>yt_title := t\<rparr>"] fr
    by (simp add: script_fetches_def)
  show ?thesis
    using g fr l
    by (auto simp: from_url_def Let_def script_fetches_def
             split: sum.splits json.splits option.splits)
qed

text \<open>
  Claim C9. One call of \<open>from_url\<close> (one page resolution) fetches the script at most
  once, whatever the session was before. A cipher resolution that finds script text in
  \<open>_js_code\<close> fetches nothing, leaves the session as it is and works on the cached text;
  and a cipher resolution that returns leaves script text in \<open>_js_code\<close>, so that every
  later resolution of the call is of that kind.
\<close>

theorem script_fetched_at_most_once:
  "script_fetches (snd (from_url env url st)) \<le> script_fetches st + 1
   \<and> (truthy (yt_js_code st) \<longrightarrow>
        get_cipher env st signature js_url = (cipher_try env (yt_js_code st) signature, st))
   \<and> (get_cipher env st signature js_url = (Inr r, st1) \<longrightarrow> truthy (yt_js_code st1))"
proof -
  have "script_fetches (snd (from_url env url st)) \<le> script_fetches st + 1"
    using from_url_fetches[of env url st] by (simp split: if_splits)
  then show ?thesis
    using get_cipher_cached get_cipher_Inr_truthy by blast
qed

theorem script_fetched_at_most_once_witness:
  "truthy (yt_js_code (init\<lparr>yt_js_code := Some ''a.sig||f(b)''\<rparr>))
   \<and> get_cipher (example_env ''p'' ''b'') (init\<lparr>yt_js_code := Some ''a.sig||f(b)''\<rparr>) ''abc'' ''http://s/x.js''
       = (Inr ''cba'', init\<lparr>yt_js_code := Some ''a.sig||f(b)''\<rparr>)
   \<and> get_cipher (example_env ''p'' ''b'') init ''abc'' ''http://s/x.js''
       = (Inr ''cba'', init\<lparr>yt_fetches := [ScriptFetch ''http://s/x.js''],
                          yt_js_code := Some ''a.sig||f(b)''\<rparr>)
   \<and> truthy (yt_js_code (init\<lparr>yt_fetches := [ScriptFetch ''http://s/x.js''],
                          yt_js_code := Some ''a.sig||f(b)''\<rparr>))"
proof -
  let ?env = "example_env ''p'' ''b''"
  let ?st = "init\<lparr>yt_js_code := Some ''a.sig||f(b)''\<rparr>"
  let ?st1 = "init\<lparr>yt_fetches := [ScriptFetch ''http://s/x.js''], yt_js_code := Some ''a.sig||f(b)''\<rparr>"
  have t: "truthy (yt_js_code ?st)" by (simp add: truthy_def)
  have c: "cipher_try ?env (Some ''a.sig||f(b)'') ''abc'' = Inr ''cba''"
    by (simp add: cipher_try_def example_env_def match_sig_def is_name_char_def)
  have g: "get_cipher ?env init ''abc'' ''http://s/x.js'' = (Inr ''cba'', ?st1)"
    using c by (simp add: get_cipher_def init_def truthy_def example_env_def)
  from script_fetched_at_most_once [of ?env "''u''" ?st "''abc''" "''http://s/x.js''" "''cba''" ?st]
       script_fetched_at_most_once [of ?env "''u''" init "''abc''" "''http://s/x.js''" "''cba''" ?st1] t c g
  show ?thesis by simp
qed

section \<open>The videos collection\<close>

lemma mset_sort_insert: "mset (sort_insert lt x xs) = add_mset x (mset xs)"
  by (induction xs) auto

lemma mset_list_sort: "mset (list_sort lt xs) = mset xs"
  unfolding list_sort_def by (induction xs) (auto simp: mset_sort_insert)

lemma get_cipher_videos:
  "get_cipher env (st\<lparr>yt_videos := vs\<rparr>) s u
     = (fst (get_cipher env st s u), (snd (get_cipher env st s u))\<lparr>yt_videos := vs\<rparr>)"
  by (auto simp: get_cipher_def Let_def split: sum.splits option.splits)

lemma ensure_signature_videos:
  "ensure_signature env sm js idx url (st\<lparr>yt_videos := vs\<rparr>)
     = (fst (ensure_signature env sm js idx url st),
        (snd (ensure_signature env sm js idx url st))\<lparr>yt_videos := vs\<rparr>)"
  by (auto simp: ensure_signature_def get_cipher_videos split: option.splits sum.splits prod.splits)

lemma filename_videos:
  "filename env (st\<lparr>yt_videos := vs\<rparr>)
     = (fst (filename env st), (snd (filename env st))\<lparr>yt_videos := vs\<rparr>)"
  by (auto simp: filename_def split: sum.splits)

lemma get_video_data_videos:
  "get_video_data env (st\<lparr>yt_videos := vs\<rparr>)
     = (fst (get_video_data env st), (snd (get_video_data env st))\<lparr>yt_videos := vs\<rparr>)"
  by (auto simp: get_video_data_def Let_def split: sum.splits option.splits)

lemma get_cipher_keeps_videos:
  "yt_videos (snd (get_cipher env st s u)) = yt_videos st"
  by (auto simp: get_cipher_def Let_def split: sum.splits option.splits)

lemma ensure_signature_keeps_videos:
  "yt_videos (snd (ensure_signature env sm js idx url st)) = yt_videos st"
proof -
  have "yt_videos st1 = yt_videos st" if "get_cipher env st s js = (r, st1)" for s r st1
    using get_cipher_keeps_videos[of env st s js] that by simp
  then show ?thesis
    by (auto simp: ensure_signature_def split: option.splits sum.splits prod.splits)
qed

lemma filename_keeps_videos:
  "yt_videos (snd (filename env st)) = yt_videos st"
  by (auto simp: filename_def split: sum.splits)

lemma get_video_data_keeps_videos:
  "yt_videos (snd (get_video_data env st)) = yt_videos st"
  by (auto simp: get_video_data_def Let_def split: sum.splits option.splits)

lemma from_url_loop_videos:
  "fst (from_url_loop env sm js xs (st\<lparr>yt_videos := vs\<rparr>)) = fst (from_url_loop env sm js xs st)
   \<and> mset (yt_videos (snd (from_url_loop env sm js xs (st\<lparr>yt_videos := vs\<rparr>)))) + mset (yt_videos st)
       = mset vs + mset (yt_videos (snd (from_url_loop env sm js xs st)))"
proof (induction xs arbitrary: st vs)
  case Nil
  then show ?case by simp
next
  case (Cons x xs)
  obtain idx url where x: "x = (idx, url)" by (cases x)
  show ?case
  proof (cases "try_quality_profile url")
    case Continue
    with x Cons.IH[where st=st and vs=vs] show ?thesis by simp
  next
    case (Raised e)
    with x show ?thesis by simp
  next
    case (Profile qp)
    obtain r st1 where es: "ensure_signature env sm js idx url st = (r, st1)"
      by (cases "ensure_signature env sm js idx url st")
    then have es': "ensure_signature env sm js idx url (st\<lparr>yt_videos := vs\<rparr>)
        = (r, st1\<lparr>yt_videos := vs\<rparr>)"
      by (simp add: ensure_signature_videos)
    have v1: "yt_videos st1 = yt_videos st"
      using ensure_signature_keeps_videos[of env sm js idx url st] es by simp
    show ?thesis
    proof (cases r)
      case (Inl e)
      with x Profile es es' v1 show ?thesis by simp
    next
      case (Inr url1)
      obtain r2 st2 where fn: "filename env st1 = (r2, st2)" by (cases "filename env st1")
      then have fn': "filename env (st1\<lparr>yt_videos := vs\<rparr>) = (r2, st2\<lparr>yt_videos := vs\<rparr>)"
        by (simp add: filename_videos)
      have v2: "yt_videos st2 = yt_videos st"
        using filename_keeps_videos[of env st1] fn v1 by simp
      show ?thesis
      proof (cases r2)
        case Inl2: (Inl e)
        with x Profile es es' Inr fn fn' v2 show ?thesis by simp
      next
        case Inr2: (Inr fname)
        let ?v = "new_Video url1 fname qp"
        let ?st3 = "add_video env url1 fname qp st2"
        let ?vs3 = "list_sort (video_lt env) (vs @ [?v])"
        have a: "add_video env url1 fname qp (st2\<lparr>yt_videos := vs\<rparr>) = ?st3\<lparr>yt_videos := ?vs3\<rparr>"
          by (simp add: add_video_def)
        have r1: "from_url_loop env sm js (x # xs) st = from_url_loop env sm js xs ?st3"
          using x Profile es Inr fn Inr2 by simp
        have r2: "from_url_loop env sm js (x # xs) (st\<lparr>yt_videos := vs\<rparr>)
            = from_url_loop env sm js xs (?st3\<lparr>yt_videos := ?vs3\<rparr>)"
          using x Profile es' Inr fn' Inr2 a by simp
        have m3: "mset (yt_videos ?st3) = add_mset ?v (mset (yt_videos st))"
          using v2 by (simp add: add_video_def mset_list_sort)
        have mvs3: "mset ?vs3 = add_mset ?v (mset vs)" by (simp add: mset_list_sort)
        from Cons.IH[where st="?st3" and vs="?vs3"] r1 r2 m3 mvs3 show ?thesis by simp
      qed
    qed
  qed
qed

lemma from_url_videos:
  "fst (from_url env url (st\<lparr>yt_videos := vs\<rparr>)) = fst (from_url env url st)
   \<and> mset (yt_videos (snd (from_url env url (st\<lparr>yt_videos := vs\<rparr>)))) + mset (yt_videos st)
       = mset vs + mset (yt_videos (snd (from_url env url st)))"
proof -
  let ?st1 = "st\<lparr>yt_video_url := Some url, yt_filename := None\<rparr>"
  obtain r st2 where g: "get_video_data env ?st1 = (r, st2)"
    by (cases "get_video_data env ?st1")
  have eq: "st\<lparr>yt_videos := vs, yt_video_url := Some url, yt_filename := None\<rparr>
      = ?st1\<lparr>yt_videos := vs\<rparr>"
    by simp
  have g': "get_video_data env (st\<lparr>yt_videos := vs, yt_video_url := Some url, yt_filename := None\<rparr>)
      = (r, st2\<lparr>yt_videos := vs\<rparr>)"
    unfolding eq using g by (simp add: get_video_data_videos)
  have v2: "yt_videos st2 = yt_videos st"
    using get_video_data_keeps_videos[of env ?st1] g by simp
  show ?thesis
  proof (cases r)
    case (Inl e)
    with g g' v2 show ?thesis by (simp add: from_url_def)
  next
    case (Inr video_data)
    note r = this
    show ?thesis
    proof (cases "json_get2 video_data ''args'' ''title''")
      case (Inl e)
      with g g' v2 r show ?thesis by (simp add: from_url_def)
    next
      case (Inr title)
      note t = this
      let ?st3 = "st2\<lparr>yt_title := title\<rparr>"
      have eq2: "st2\<lparr>yt_videos := vs, yt_title := title\<rparr> = ?st3\<lparr>yt_videos := vs\<rparr>"
        by simp
      have L: "fst (from_url_loop env sm js xs (st2\<lparr>yt_videos := vs, yt_title := title\<rparr>))
                 = fst (from_url_loop env sm js xs ?st3)
             \<and> mset (yt_videos (snd (from_url_loop env sm js xs
                        (st2\<lparr>yt_videos := vs, yt_title := title\<rparr>))))
                   + mset (yt_videos st)
                 = mset vs + mset (yt_videos (snd (from_url_loop env sm js xs ?st3)))"
        for sm js xs
        unfolding eq2
        using from_url_loop_videos[where st="?st3" and vs=vs and env=env and sm=sm and js=js and xs=xs] v2
        by simp
      show ?thesis
      proof (cases "js_url_of video_data")
        case (Inl e)
        with g g' v2 r t show ?thesis by (simp add: from_url_def)
      next
        case (Inr js_url)
        note j = this
        show ?thesis
        proof (cases "json_get2 video_data ''args'' ''stream_map''")
          case (Inl e)
          with g g' v2 r t j show ?thesis by (simp add: from_url_def)
        next
          case (Inr smj)
          note s = this
          show ?thesis
          proof (cases smj)
            case (JStreamMap d)
            show ?thesis
            proof (cases "map_of d ''url''")
              case None
              with g g' v2 r t j s JStreamMap show ?thesis by (simp add: from_url_def)
            next
              case (Some urls)
              with g g' r t j s JStreamMap L[of d js_url "enumerate 0 urls"] v2
              show ?thesis by (simp add: from_url_def)
            qed
          qed (use g g' v2 r t j s in \<open>simp_all add: from_url_def\<close>)
        qed
      qed
    qed
  qed
qed

text \<open>
  The outcome of \<open>from_url\<close> does not depend on the videos that the session already
  has, and the collection afterwards is the old collection together with what the call
  adds to an empty one.
\<close>

lemma from_url_outcome_ignores_videos:
  "fst (from_url env url st) = fst (from_url env url (st\<lparr>yt_videos := []\<rparr>))
   \<and> mset (yt_videos (snd (from_url env url st)))
       = mset (yt_videos st) + mset (yt_videos (snd (from_url env url (st\<lparr>yt_videos := []\<rparr>))))"
proof -
  let ?st0 = "st\<lparr>yt_videos := []\<rparr>"
  have e: "?st0\<lparr>yt_videos := yt_videos st\<rparr> = st" by simp
  from from_url_videos[where st="?st0" and vs="yt_videos st" and env=env and url=url]
  show ?thesis unfolding e by simp
qed

text \<open>
  What a call adds: \<open>_add_video\<close> appends the new video and keeps the others, and the
  collection after \<open>from_url\<close> is the collection before it together with the streams that
  the call resolves.
\<close>

lemma add_video_appends:
  "mset (yt_videos (add_video env u f kw st)) = add_mset (new_Video u f kw) (mset (yt_videos st))"
  by (simp add: add_video_def mset_list_sort)

lemma from_url_loop_appends:
  "mset (yt_videos (snd (from_url_loop env sm js xs st)))
     = mset (yt_videos st) + mset (new_streams env sm js xs st)"
proof (induction xs arbitrary: st)
  case Nil
  then show ?case by simp
next
  case (Cons x xs)
  obtain idx url where x: "x = (idx, url)" by (cases x)
  show ?case
  proof (cases "try_quality_profile url")
    case Continue
    with x Cons.IH[of st] show ?thesis by simp
  next
    case (Raised e)
    with x show ?thesis by simp
  next
    case (Profile qp)
    obtain r st1 where es: "ensure_signature env sm js idx url st = (r, st1)"
      by (cases "ensure_signature env sm js idx url st")
    have v1: "yt_videos st1 = yt_videos st"
      using ensure_signature_keeps_videos[of env sm js idx url st] es by simp
    show ?thesis
    proof (cases r)
      case (Inl e)
      with x Profile es v1 show ?thesis by simp
    next
      case (Inr url1)
      obtain r2 st2 where fn: "filename env st1 = (r2, st2)" by (cases "filename env st1")
      have v2: "yt_videos st2 = yt_videos st"
        using filename_keeps_videos[of env st1] fn v1 by simp
      show ?thesis
      proof (cases r2)
        case Inl2: (Inl e)
        with x Profile es Inr fn v2 show ?thesis by simp
      next
        case Inr2: (Inr fname)
        let ?st3 = "add_video env url1 fname qp st2"
        have l: "from_url_loop env sm js (x # xs) st = from_url_loop env sm js xs ?st3"
          using x Profile es Inr fn Inr2 by simp
        have n: "new_streams env sm js (x # xs) st
            = new_Video url1 fname qp # new_streams env sm js xs ?st3"
          using x Profile es Inr fn Inr2 by simp
        have m: "mset (yt_videos ?st3) = add_mset (new_Video url1 fname qp) (mset (yt_videos st))"
          using v2 by (simp add: add_video_appends)
        from Cons.IH[of ?st3] l n m show ?thesis by simp
      qed
    qed
  qed
qed

lemma from_url_appends:
  "mset (yt_videos (snd (from_url env url st)))
     = mset (yt_videos st) + mset (resolved_streams env url st)"
proof -
  let ?st1 = "st\<lparr>yt_video_url := Some url, yt_filename := None\<rparr>"
  obtain r st2 where g: "get_video_data env ?st1 = (r, st2)"
    by (cases "get_video_data env ?st1")
  have v2: "yt_videos st2 = yt_videos st"
    using get_video_data_keeps_videos[of env ?st1] g by simp
  show ?thesis
  proof (cases r)
    case (Inl e)
    with g v2 show ?thesis by (simp add: from_url_def resolved_streams_def)
  next
    case (Inr video_data)
    note r = this
    show ?thesis
    proof (cases "json_get2 video_data ''args'' ''title''")
      case (Inl e)
      with g v2 r show ?thesis by (simp add: from_url_def resolved_streams_def)
    next
      case (Inr title)
      note t = this
      have L: "mset (yt_videos (snd (from_url_loop env sm js xs (st2\<lparr>yt_title := title\<rparr>))))
          = mset (yt_videos st) + mset (new_streams env sm js xs (st2\<lparr>yt_title := title\<rparr>))"
        for sm js xs
        using from_url_loop_appends[of env sm js xs "st2\<lparr>yt_title := title\<rparr>"] v2 by simp
      show ?thesis
      proof (cases "js_url_of video_data")
        case (Inl e)
        with g v2 r t show ?thesis by (simp add: from_url_def resolved_streams_def)
      next
        case (Inr js_url)
        note j = this
        show ?thesis
        proof (cases "json_get2 video_data ''args'' ''stream_map''")
          case (Inl e)
          with g v2 r t j show ?thesis by (simp add: from_url_def resolved_streams_def)
        next
          case (Inr smj)
          note s = this
          show ?thesis
          proof (cases smj)
            case (JStreamMap d)
            show ?thesis
            proof (cases "map_of d ''url''")
              case None
              with g v2 r t j s JStreamMap show ?thesis
                by (simp add: from_url_def resolved_streams_def)
            next
              case (Some urls)
              with g r t j s JStreamMap L[of d js_url "enumerate 0 urls"]
              show ?thesis by (simp add: from_url_def resolved_streams_def)
            qed
          qed (use g v2 r t j s in \<open>simp_all add: from_url_def resolved_streams_def\<close>)
        qed
      qed
    qed
  qed
qed

text \<open>
  What a call does to the other attributes: the loop leaves the url and the title as they
  are, keeps script text once it is there, and sets the filename from the title only.
\<close>

lemma get_cipher_attrs:
  "yt_video_url (snd (get_cipher env st s u)) = yt_video_url st
   \<and> yt_title (snd (get_cipher env st s u)) = yt_title st
   \<and> yt_filename (snd (get_cipher env st s u)) = yt_filename st"
  by (auto simp: get_cipher_def Let_def split: sum.splits option.splits)

lemma ensure_signature_attrs:
  "yt_video_url (snd (ensure_signature env sm js idx url st)) = yt_video_url st
   \<and> yt_title (snd (ensure_signature env sm js idx url st)) = yt_title st
   \<and> yt_filename (snd (ensure_signature env sm js idx url st)) = yt_filename st"
proof -
  have "yt_video_url st1 = yt_video_url st \<and> yt_title st1 = yt_title st
        \<and> yt_filename st1 = yt_filename st"
    if "get_cipher env st s js = (r, st1)" for s r st1
    using get_cipher_attrs[of env st s js] that by simp
  then show ?thesis
    by (auto simp: ensure_signature_def split: option.splits sum.splits prod.splits)
qed

lemma filename_attrs:
  "yt_video_url (snd (filename env st)) = yt_video_url st
   \<and> yt_title (snd (filename env st)) = yt_title st
   \<and> (filename_from_title env st \<longrightarrow> filename_from_title env (snd (filename env st)))"
  by (auto simp: filename_def filename_from_title_def split: sum.splits option.splits)

lemma add_video_attrs:
  "yt_video_url (add_video env u f kw st) = yt_video_url st
   \<and> yt_title (add_video env u f kw st) = yt_title st
   \<and> yt_filename (add_video env u f kw st) = yt_filename st"
  by (simp add: add_video_def)

lemma from_url_loop_attrs:
  "yt_video_url (snd (from_url_loop env sm js xs st)) = yt_video_url st
   \<and> yt_title (snd (from_url_loop env sm js xs st)) = yt_title st
   \<and> (filename_from_title env st \<longrightarrow> filename_from_title env (snd (from_url_loop env sm js xs st)))
   \<and> (truthy (yt_js_code st) \<longrightarrow> yt_js_code (snd (from_url_loop env sm js xs st)) = yt_js_code st)"
proof (induction xs arbitrary: st)
  case Nil
  then show ?case by simp
next
  case (Cons x xs)
  obtain idx url where x: "x = (idx, url)" by (cases x)
  show ?case
  proof (cases "try_quality_profile url")
    case Continue
    with x Cons.IH[of st] show ?thesis by simp
  next
    case (Raised e)
    with x show ?thesis by simp
  next
    case (Profile qp)
    obtain r st1 where es: "ensure_signature env sm js idx url st = (r, st1)"
      by (cases "ensure_signature env sm js idx url st")
    have a1: "yt_video_url st1 = yt_video_url st" "yt_title st1 = yt_title st"
      "yt_filename st1 = yt_filename st"
      using ensure_signature_attrs[of env sm js idx url st] es by simp_all
    have f1: "filename_from_title env st \<Longrightarrow> filename_from_title env st1"
      using a1 by (simp add: filename_from_title_def split: option.splits)
    have j1: "truthy (yt_js_code st) \<Longrightarrow> st1 = st"
      using ensure_signature_truthy[OF es] .
    show ?thesis
    proof (cases r)
      case (Inl e)
      with x Profile es a1 f1 j1 show ?thesis by auto
    next
      case (Inr url1)
      obtain r2 st2 where fn: "filename env st1 = (r2, st2)" by (cases "filename env st1")
      have a2: "yt_video_url st2 = yt_video_url st" "yt_title st2 = yt_title st"
        using filename_attrs[of env st1] fn a1 by simp_all
      have f2: "filename_from_title env st \<Longrightarrow> filename_from_title env st2"
        using filename_attrs[of env st1] fn f1 by simp
      have j2: "yt_js_code st2 = yt_js_code st1"
        using filename_frame[OF fn] by simp
      show ?thesis
      proof (cases r2)
        case Inl2: (Inl e)
        with x Profile es Inr fn a2 f2 j1 j2 show ?thesis by auto
      next
        case Inr2: (Inr fname)
        let ?st3 = "add_video env url1 fname qp st2"
        have l: "from_url_loop env sm js (x # xs) st = from_url_loop env sm js xs ?st3"
          using x Profile es Inr fn Inr2 by simp
        have a3: "yt_video_url ?st3 = yt_video_url st" "yt_title ?st3 = yt_title st"
          using add_video_attrs[of env url1 fname qp st2] a2 by simp_all
        have f3: "filename_from_title env st \<Longrightarrow> filename_from_title env ?st3"
          using add_video_attrs[of env url1 fname qp st2] f2
          by (simp add: filename_from_title_def split: option.splits)
        have j3: "truthy (yt_js_code st) \<Longrightarrow> yt_js_code ?st3 = yt_js_code st"
          using add_video_frame[of env url1 fname qp st2] j2 j1 by auto
        from Cons.IH[of ?st3] l a3 f3 j3 show ?thesis by auto
      qed
    qed
  qed
qed

lemma get_video_data_attrs:
  "yt_video_url (snd (get_video_data env st)) = yt_video_url st
   \<and> yt_filename (snd (get_video_data env st)) = yt_filename st
   \<and> yt_js_code (snd (get_video_data env st)) = yt_js_code st"
  by (auto simp: get_video_data_def Let_def split: sum.splits option.splits)

lemma from_url_shape:
  "\<exists>st3. yt_video_url st3 = Some url \<and> yt_filename st3 = None
        \<and> yt_js_code st3 = yt_js_code st
        \<and> (snd (from_url env url st) = st3
            \<or> (\<exists>sm js xs. from_url env url st = from_url_loop env sm js xs st3))"
proof -
  let ?st1 = "st\<lparr>yt_video_url := Some url, yt_filename := None\<rparr>"
  obtain r st2 where g: "get_video_data env ?st1 = (r, st2)"
    by (cases "get_video_data env ?st1")
  have a2: "yt_video_url st2 = Some url" "yt_filename st2 = None"
    "yt_js_code st2 = yt_js_code st"
    using get_video_data_attrs[of env ?st1] g by simp_all
  have P2: "yt_video_url st2 = Some url \<and> yt_filename st2 = None
        \<and> yt_js_code st2 = yt_js_code st
        \<and> (snd (from_url env url st) = st2
            \<or> (\<exists>sm js xs. from_url env url st = from_url_loop env sm js xs st2))"
    if "snd (from_url env url st) = st2"
    using that a2 by simp
  have P3: "yt_video_url (st2\<lparr>yt_title := t\<rparr>) = Some url \<and> yt_filename (st2\<lparr>yt_title := t\<rparr>) = None
        \<and> yt_js_code (st2\<lparr>yt_title := t\<rparr>) = yt_js_code st
        \<and> (snd (from_url env url st) = st2\<lparr>yt_title := t\<rparr>
            \<or> (\<exists>sm js xs. from_url env url st = from_url_loop env sm js xs (st2\<lparr>yt_title := t\<rparr>)))"
    if "snd (from_url env url st) = st2\<lparr>yt_title := t\<rparr>
        \<or> (\<exists>sm js xs. from_url env url st = from_url_loop env sm js xs (st2\<lparr>yt_title := t\<rparr>))" for t
    using that a2 by simp
  show ?thesis
  proof (cases r)
    case (Inl e)
    with g have "snd (from_url env url st) = st2" by (simp add: from_url_def)
    from P2[OF this] show ?thesis by blast
  next
    case (Inr video_data)
    note r = this
    show ?thesis
    proof (cases "json_get2 video_data ''args'' ''title''")
      case (Inl e)
      with g r have "snd (from_url env url st) = st2" by (simp add: from_url_def)
      from P2[OF this] show ?thesis by blast
    next
      case (Inr title)
      note t = this
      have "snd (from_url env url st) = st2\<lparr>yt_title := title\<rparr>
        \<or> (\<exists>sm js xs. from_url env url st = from_url_loop env sm js xs (st2\<lparr>yt_title := title\<rparr>))"
      proof (cases "js_url_of video_data")
        case (Inl e)
        with g r t show ?thesis by (simp add: from_url_def)
      next
        case (Inr js_url)
        note j = this
        show ?thesis
        proof (cases "json_get2 video_data ''args'' ''stream_map''")
          case (Inl e)
          with g r t j show ?thesis by (simp add: from_url_def)
        next
          case (Inr smj)
          note s = this
          show ?thesis
          proof (cases smj)
            case (JStreamMap d)
            show ?thesis
            proof (cases "map_of d ''url''")
              case None
              with g r t j s JStreamMap show ?thesis by (simp add: from_url_def)
            next
              case (Some urls)
              with g r t j s JStreamMap
              have "from_url env url st
                  = from_url_loop env d js_url (enumerate 0 urls) (st2\<lparr>yt_title := title\<rparr>)"
                by (simp add: from_url_def)
              then show ?thesis by blast
            qed
          qed (use g r t j s in \<open>simp_all add: from_url_def\<close>)
        qed
      qed
      from P3[OF this] show ?thesis by blast
    qed
  qed
qed

lemma from_url_attrs:
  "yt_video_url (snd (from_url env url st)) = Some url
   \<and> filename_from_title env (snd (from_url env url st))
   \<and> (truthy (yt_js_code st) \<longrightarrow> yt_js_code (snd (from_url env url st)) = yt_js_code st)"
proof -
  from from_url_shape[of url st env]
  obtain st3 where u: "yt_video_url st3 = Some url" and f: "yt_filename st3 = None"
    and j: "yt_js_code st3 = yt_js_code st"
    and c: "snd (from_url env url st) = st3
            \<or> (\<exists>sm js xs. from_url env url st = from_url_loop env sm js xs st3)"
    by blast
  from f have ft: "filename_from_title env st3" by (simp add: filename_from_title_def)
  from c show ?thesis
  proof
    assume "snd (from_url env url st) = st3"
    with u ft j show ?thesis by simp
  next
    assume "\<exists>sm js xs. from_url env url st = from_url_loop env sm js xs st3"
    then obtain sm js xs where e: "from_url env url st = from_url_loop env sm js xs st3"
      by blast
    from from_url_loop_attrs[of env sm js xs st3] u ft j e show ?thesis by simp
  qed
qed

lemma get_video_data_discards_title:
  "get_video_data env (st\<lparr>yt_title := t\<rparr>) = get_video_data env st"
  by (simp add: get_video_data_def)

lemma from_url_discards:
  "from_url env url (st\<lparr>yt_filename := f, yt_video_url := u, yt_title := t\<rparr>)
     = from_url env url st"
proof -
  have e: "st\<lparr>yt_filename := f, yt_video_url := u, yt_title := t,
              yt_video_url := Some url, yt_filename := None\<rparr>
      = (st\<lparr>yt_video_url := Some url, yt_filename := None\<rparr>)\<lparr>yt_title := t\<rparr>"
    by simp
  show ?thesis
    unfolding from_url_def Let_def e get_video_data_discards_title ..
qed

text \<open>
  Claim C10, as the code has it. A call of \<open>from_url\<close> on a session that already has
  videos does not clear \<open>_videos\<close>: the collection afterwards is the collection before
  the call together with the streams that the call resolves (as a multiset: the list is
  sorted again after every addition), also when the call ends with an error. The call
  sets \<open>_video_url\<close> to its argument; it discards the previous filename and also the
  previous title (\<open>get_video_data\<close> sets \<open>title\<close> to \<open>None\<close> before the page is read) and
  the previous url: they have no effect on the outcome or on the session afterwards,
  where the filename is unset or generated again from the title. Script text that the
  session has cached is kept.
\<close>

theorem from_url_second_call:
  "mset (yt_videos (snd (from_url env url st)))
     = mset (yt_videos st) + mset (resolved_streams env url st)
   \<and> yt_video_url (snd (from_url env url st)) = Some url
   \<and> from_url env url (st\<lparr>yt_filename := f, yt_video_url := u, yt_title := t\<rparr>)
       = from_url env url st
   \<and> filename_from_title env (snd (from_url env url st))
   \<and> (truthy (yt_js_code st) \<longrightarrow> yt_js_code (snd (from_url env url st)) = yt_js_code st)"
  using from_url_appends[where env=env and url=url and st=st]
        from_url_attrs[where env=env and url=url and st=st]
        from_url_discards[where env=env and url=url and st=st and f=f and u=u and t=t]
  by simp

theorem from_url_second_call_witness:
  "from_url (example_env ''ytplayer.config = {};'' ''url=http://h/b?itag%3D18&s=abc'')
     ''http://h/watch'' init = (Inr (), example_populated)
   \<and> truthy (yt_js_code example_populated)
   \<and> resolved_streams (example_env ''ytplayer.config = {};'' ''url=http://h/b?itag%3D18&s=abc'')
        ''http://h/watch'' example_populated = [example_video]
   \<and> from_url (example_env ''ytplayer.config = {};'' ''url=http://h/b?itag%3D18&s=abc'')
        ''http://h/watch'' example_populated
       = (Inr (), example_populated
            \<lparr>yt_videos := [example_video, example_video],
             yt_fetches := [PageFetch ''http://h/watch'', ScriptFetch ''http://s/x.js'',
                            PageFetch ''http://h/watch'']\<rparr>)
   \<and> mset (yt_videos (snd (from_url
          (example_env ''ytplayer.config = {};'' ''url=http://h/b?itag%3D18&s=abc'')
          ''http://h/watch'' example_populated)))
       = mset (yt_videos example_populated) + mset [example_video]
   \<and> yt_video_url (snd (from_url
          (example_env ''ytplayer.config = {};'' ''url=http://h/b?itag%3D18&s=abc'')
          ''http://h/watch'' example_populated)) = Some ''http://h/watch''
   \<and> yt_js_code (snd (from_url
          (example_env ''ytplayer.config = {};'' ''url=http://h/b?itag%3D18&s=abc'')
          ''http://h/watch'' example_populated)) = yt_js_code example_populated"
proof -
  let ?env = "example_env ''ytplayer.config = {};'' ''url=http://h/b?itag%3D18&s=abc''"
  have a: "from_url ?env ''http://h/watch'' init = (Inr (), example_populated)"
    by code_simp
  have b: "truthy (yt_js_code example_populated)"
    by (simp add: example_populated_def truthy_def)
  have c: "resolved_streams ?env ''http://h/watch'' example_populated = [example_video]"
    by code_simp
  have d: "from_url ?env ''http://h/watch'' example_populated
       = (Inr (), example_populated
            \<lparr>yt_videos := [example_video, example_video],
             yt_fetches := [PageFetch ''http://h/watch'', ScriptFetch ''http://s/x.js'',
                            PageFetch ''http://h/watch'']\<rparr>)"
    by code_simp
  from from_url_second_call [where env="?env" and url="''http://h/watch''"
                                and st=example_populated and f=None and u=None and t=JNull]
       a b c d
  show ?thesis by simp
qed

text \<open>
  Claim C10 as stated fails in "resets only the filename": the title is reset as well. On
  the session left by a first resolution (title \<open>T\<close>, filename \<open>T\<close>, one video), a second
  call for a page whose configuration has no title returns normally and leaves the
  session with no title and no filename; and a second call for a page that cannot be
  fetched ends with the fetch error and leaves the session with no title and no filename.
  The video of the first resolution is kept in both.
\<close>

theorem from_url_title_reset_counterexample:
  "from_url (example_env ''ytplayer.config = {};'' ''url=http://h/b?itag%3D18&s=abc'')
     ''http://h/watch'' init = (Inr (), example_populated)
   \<and> yt_title example_populated = JStr ''T''
   \<and> from_url (untitled_env ''ytplayer.config = {};'' ''url=http://h/b?itag%3D999'')
        ''http://h/watch'' example_populated
       = (Inr (), example_populated
            \<lparr>yt_filename := None, yt_title := JNull,
             yt_fetches := [PageFetch ''http://h/watch'', ScriptFetch ''http://s/x.js'',
                            PageFetch ''http://h/watch'']\<rparr>)
   \<and> from_url (example_env ''ytplayer.config = {};'' ''url=http://h/b?itag%3D18&s=abc'')
        ''http://h/gone'' example_populated
       = (Inl (ExternalError ''unreachable''), example_populated
            \<lparr>yt_video_url := Some ''http://h/gone'', yt_filename := None, yt_title := JNull,
             yt_fetches := [PageFetch ''http://h/watch'', ScriptFetch ''http://s/x.js'',
                            PageFetch ''http://h/gone'']\<rparr>)"
  by code_simp


end
